theory Spec2Isabelle
  imports Main "HOL-Library.Word"
begin

section \<open>The bulk-transfer engine of the network quality server (server.go)\<close>

text \<open>
  The handlers of \<^verbatim>\<open>server.go\<close> are embedded as functions on explicit state:
  the \<^verbatim>\<open>http.ResponseWriter\<close> of the request, the process memory that holds the
  \<^verbatim>\<open>uint64\<close> byte counters, and the operator log. A run-time panic (a nil pointer
  handed to \<^verbatim>\<open>atomic.AddUint64\<close>) is a value of the result type.
  Of the Prometheus instrumentation (\<^verbatim>\<open>pC\<close>, \<^verbatim>\<open>pH\<close>) the one call that can
  panic is kept; the counts and the wall-clock times it records are left out: no
  handler reads them back, and none of the state below depends on them.
  \<^verbatim>\<open>PrintStats\<close>, the reporting loop, only reads the counters and is
  not embedded. The discovery document is embedded down to its bytes: the layout of
  \<^verbatim>\<open>json.MarshalIndent\<close> and the string encoder of \<^verbatim>\<open>encoding/json\<close>.
\<close>

subsection \<open>Constants\<close>

definition smallContentLength :: int where
  "smallContentLength = 1"

definition largeContentLength :: int where
  "largeContentLength = 8 * 1024 * 1024 * 1024"

definition chunkSize :: int where
  "chunkSize = 64 * 1024"

text \<open>\<^verbatim>\<open>buffed\<close>: the filler block that \<^verbatim>\<open>init\<close> builds, \<^verbatim>\<open>chunkSize\<close> bytes \<^verbatim>\<open>'x'\<close>.\<close>

definition buffed :: string where
  "buffed = replicate (nat chunkSize) (CHR ''x'')"

definition MethodGet :: string where
  "MethodGet = ''GET''"

definition MethodHead :: string where
  "MethodHead = ''HEAD''"

definition StatusOK :: nat where
  "StatusOK = 200"

definition StatusBadRequest :: nat where
  "StatusBadRequest = 400"

definition StatusMethodNotAllowed :: nat where
  "StatusMethodNotAllowed = 405"

subsection \<open>Errors\<close>

text \<open>
  A Go \<^verbatim>\<open>error\<close> value, as far as the code observes it: what it is when compared
  with \<^verbatim>\<open>==\<close> against a sentinel (a \<^verbatim>\<open>syscall.Errno\<close> with its number, the
  \<^verbatim>\<open>io.EOF\<close> sentinel, or neither), the text its \<^verbatim>\<open>Error()\<close> method returns, the
  targets for which its own \<^verbatim>\<open>Is\<close> method answers true (none for an error without
  that method), and the errors its \<^verbatim>\<open>Unwrap\<close> method yields (none, one, or several
  for a joined error).
\<close>

datatype err_tag = Errno nat | EOF | Other

datatype go_error =
  GoError (tag: err_tag) (Error: string) (Is: "err_tag set") (Unwrap: "go_error list")

text \<open>The errno numbers of \<^verbatim>\<open>syscall.EPIPE\<close> and \<^verbatim>\<open>syscall.ECONNRESET\<close> (Linux).\<close>

definition EPIPE :: err_tag where
  "EPIPE = Errno 32"

definition ECONNRESET :: err_tag where
  "ECONNRESET = Errno 104"

text \<open>
  \<^verbatim>\<open>errors.Is(err, target)\<close> for a non-nil \<^verbatim>\<open>err\<close>: \<^verbatim>\<open>err == target\<close>, or the
  error's own \<^verbatim>\<open>Is(target)\<close>, or the same for an error reached through
  \<^verbatim>\<open>Unwrap\<close>, depth first.
\<close>

fun errors_Is :: "go_error \<Rightarrow> err_tag \<Rightarrow> bool" where
  "errors_Is (GoError t s accepts us) target =
     (t = target \<or> target \<in> accepts \<or> list_ex (\<lambda>u. errors_Is u target) us)"

definition ignorableError :: "go_error option \<Rightarrow> bool" where
  "ignorableError err =
     (case err of
        None \<Rightarrow> True
      | Some e \<Rightarrow>
          if errors_Is e EPIPE then True
          else if errors_Is e ECONNRESET then True
          else if Error e = ''client disconnected'' then True
          else False)"

subsection \<open>Formatting\<close>

text \<open>\<^verbatim>\<open>strconv.FormatInt(i, 10)\<close> and the verb \<^verbatim>\<open>%d\<close>: decimal digits, a sign when negative.\<close>

definition digit :: "nat \<Rightarrow> char" where
  "digit d = ''0123456789'' ! d"

function decimal :: "nat \<Rightarrow> string" where
  "decimal n = (if n < 10 then [digit n] else decimal (n div 10) @ [digit (n mod 10)])"
  by pat_completeness auto
termination
  by (relation "measure id") auto

declare decimal.simps [simp del]

definition FormatInt :: "int \<Rightarrow> string" where
  "FormatInt i = (if i < 0 then CHR ''-'' # decimal (nat (- i)) else decimal (nat i))"

text \<open>The verb \<^verbatim>\<open>%s\<close> applied to an \<^verbatim>\<open>error\<close>: its text, or the marker of a nil value.\<close>

definition fmt_error :: "go_error option \<Rightarrow> string" where
  "fmt_error err = (case err of None \<Rightarrow> ''%!s(<nil>)'' | Some e \<Rightarrow> Error e)"

subsection \<open>UTF-8\<close>

text \<open>
  \<^verbatim>\<open>utf8.DecodeRuneInString\<close>, as far as its callers need it: the number of bytes of
  the rune at the head of a string, or 0 when the head does not start a well-formed
  rune (the decoder then answers \<^verbatim>\<open>RuneError\<close> with size 1). The lead byte fixes the
  length and the range of the second byte; the other bytes are continuation bytes.
\<close>

definition in_range :: "char \<Rightarrow> nat \<Rightarrow> nat \<Rightarrow> bool" where
  "in_range c lo hi = (lo \<le> of_char c \<and> (of_char c :: nat) \<le> hi)"

fun rune_len :: "string \<Rightarrow> nat" where
  "rune_len [] = 0"
| "rune_len (c # cs) =
     (let b = (of_char c :: nat) in
      if b < 0x80 then 1
      else if b < 0xC2 then 0
      else if b < 0xE0 then
        (case cs of
           c1 # _ \<Rightarrow> if in_range c1 0x80 0xBF then 2 else 0
         | _ \<Rightarrow> 0)
      else if b < 0xF0 then
        (case cs of
           c1 # c2 # _ \<Rightarrow>
             if in_range c1 (if b = 0xE0 then 0xA0 else 0x80) (if b = 0xED then 0x9F else 0xBF)
                \<and> in_range c2 0x80 0xBF
             then 3 else 0
         | _ \<Rightarrow> 0)
      else if b < 0xF5 then
        (case cs of
           c1 # c2 # c3 # _ \<Rightarrow>
             if in_range c1 (if b = 0xF0 then 0x90 else 0x80) (if b = 0xF4 then 0x8F else 0xBF)
                \<and> in_range c2 0x80 0xBF \<and> in_range c3 0x80 0xBF
             then 4 else 0
         | _ \<Rightarrow> 0)
      else 0)"

text \<open>\<^verbatim>\<open>utf8.ValidString\<close>: the string is a sequence of well-formed runes.\<close>

function ValidString :: "string \<Rightarrow> bool" where
  "ValidString s =
     (if s = [] then True
      else if rune_len s = 0 then False
      else ValidString (drop (rune_len s) s))"
  by pat_completeness auto
termination
  by (relation "measure length") auto

declare ValidString.simps [simp del]

subsection \<open>Process state: counter memory and log\<close>

text \<open>
  A \<^verbatim>\<open>*uint64\<close> is \<open>None\<close> (nil) or the address of a cell of the memory; two
  pointers may name the same cell. \<^verbatim>\<open>log.Printf\<close> appends its formatted message to
  the log.
\<close>

type_synonym ptr = "nat option"

record world =
  mem :: "nat \<Rightarrow> 64 word"
  logs :: "string list"

datatype fault = NilPointerDereference | InvalidLabelValue

definition atomic_AddUint64 :: "ptr \<Rightarrow> 64 word \<Rightarrow> world \<Rightarrow> fault + world" where
  "atomic_AddUint64 addr delta g =
     (case addr of
        None \<Rightarrow> Inl NilPointerDereference
      | Some a \<Rightarrow> Inr (g\<lparr>mem := (mem g)(a := mem g a + delta)\<rparr>))"

definition log_Printf :: "string \<Rightarrow> world \<Rightarrow> world" where
  "log_Printf msg g = g\<lparr>logs := logs g @ [msg]\<rparr>"

subsection \<open>The response writer\<close>

text \<open>
  The \<^verbatim>\<open>http.ResponseWriter\<close> of one request: the header map, the status code of the
  first \<^verbatim>\<open>WriteHeader\<close>, the buffers handed to \<^verbatim>\<open>Write\<close> in order, the bytes the
  transport took, and the transport's answers to the writes still to come. With no
  answer left a write succeeds. A failing write takes a prefix of its buffer and returns
  an error; a succeeding write takes the whole buffer.
\<close>

datatype write_outcome = Accept | Fail nat go_error

record ResponseWriter =
  header :: "string \<rightharpoonup> string"
  status :: "nat option"
  written :: "string list"
  sent :: string
  transport :: "write_outcome list"

definition Header_Set :: "string \<Rightarrow> string \<Rightarrow> ResponseWriter \<Rightarrow> ResponseWriter" where
  "Header_Set k v w = w\<lparr>header := (header w)(k \<mapsto> v)\<rparr>"

text \<open>Only the first \<^verbatim>\<open>WriteHeader\<close> of a response counts.\<close>

definition WriteHeader :: "nat \<Rightarrow> ResponseWriter \<Rightarrow> ResponseWriter" where
  "WriteHeader code w = (if status w = None then w\<lparr>status := Some code\<rparr> else w)"

text \<open>
  \<^verbatim>\<open>w.Write(p)\<close> returns the number of bytes taken and the error. A write before any
  \<^verbatim>\<open>WriteHeader\<close> sends status 200 first.
\<close>

definition Write :: "string \<Rightarrow> ResponseWriter \<Rightarrow> ResponseWriter \<times> nat \<times> go_error option" where
  "Write p w0 =
     (let w = WriteHeader StatusOK w0 in
      case transport w of
        [] \<Rightarrow> (w\<lparr>written := written w @ [p], sent := sent w @ p\<rparr>, length p, None)
      | Accept # rest \<Rightarrow>
          (w\<lparr>written := written w @ [p], sent := sent w @ p, transport := rest\<rparr>, length p, None)
      | Fail k e # rest \<Rightarrow>
          (w\<lparr>written := written w @ [p], sent := sent w @ take k p, transport := rest\<rparr>,
           min k (length p), Some e))"

text \<open>The status the client sees: 200 when the handler returns without choosing one.\<close>

definition response_status :: "ResponseWriter \<Rightarrow> nat" where
  "response_status w = (case status w of None \<Rightarrow> StatusOK | Some c \<Rightarrow> c)"

definition setCors :: "ResponseWriter \<Rightarrow> ResponseWriter" where
  "setCors w =
     Header_Set ''Access-Control-Allow-Headers'' ''*''
       (Header_Set ''Access-Control-Allow-Origin'' ''*'' w)"

subsection \<open>The server record\<close>

text \<open>
  The \<^verbatim>\<open>Server\<close> struct. \<open>once\<close> is the \<^verbatim>\<open>sync.Once\<close>, reduced to its done flag;
  \<open>generatedConfig\<close> is the cached discovery document, empty (nil) until built. No
  function of \<^verbatim>\<open>server.go\<close> writes the two counter fields through the struct; the
  handlers count through the pointers they were built with.
\<close>

record Server =
  PublicPort :: int
  PublicHostPort :: string
  ContextPath :: string
  Scheme :: string
  EnableCORS :: bool
  EnableH3AltSvc :: bool
  BytesServed :: "64 word"
  BytesReceived :: "64 word"
  generatedConfig :: string
  once :: bool

subsection \<open>Handlers and the chunked body writer\<close>

record handlers =
  EnableCORS :: bool
  BytesServed :: ptr
  BytesReceived :: ptr

text \<open>
  The loop of \<^verbatim>\<open>chunkedBodyWriter\<close>, with \<open>n\<close> the bytes still to write. \<open>n\<close> is an
  \<^verbatim>\<open>int64\<close>; it only decreases, by \<^verbatim>\<open>chunkSize\<close> while at least that large, so it
  never leaves the range between 0 and its first value and is read as an integer. The
  counter is a \<^verbatim>\<open>uint64\<close> and wraps. The byte count \<^verbatim>\<open>Write\<close> returns is dropped,
  as in the source.
\<close>

function chunkedBodyWriter_loop ::
  "handlers \<Rightarrow> int \<Rightarrow> ResponseWriter \<Rightarrow> world \<Rightarrow> fault + (go_error option \<times> ResponseWriter \<times> world)"
where
  "chunkedBodyWriter_loop h n w g =
     (if n > 0 then
        if n \<ge> chunkSize then
          (case atomic_AddUint64 (BytesServed h) (of_int chunkSize) g of
             Inl f \<Rightarrow> Inl f
           | Inr g' \<Rightarrow>
               (case Write buffed w of
                  (w', _, Some err) \<Rightarrow> Inr (Some err, w', g')
                | (w', _, None) \<Rightarrow> chunkedBodyWriter_loop h (n - chunkSize) w' g'))
        else
          (case atomic_AddUint64 (BytesServed h) (of_int n) g of
             Inl f \<Rightarrow> Inl f
           | Inr g' \<Rightarrow>
               (case Write (take (nat n) buffed) w of
                  (w', _, Some err) \<Rightarrow> Inr (Some err, w', g')
                | (w', _, None) \<Rightarrow> Inr (None, w', g')))
      else Inr (None, w, g))"
  by pat_completeness auto
termination
  by (relation "measure (\<lambda>(h, n, w, g). nat n)") (auto simp: chunkSize_def)

declare chunkedBodyWriter_loop.simps [simp del]

definition chunkedBodyWriter ::
  "handlers \<Rightarrow> ResponseWriter \<Rightarrow> int \<Rightarrow> world \<Rightarrow> fault + (go_error option \<times> ResponseWriter \<times> world)"
where
  "chunkedBodyWriter h w contentLength g =
     chunkedBodyWriter_loop h contentLength (WriteHeader StatusOK w) g"

text \<open>
  What a run handed to \<^verbatim>\<open>Write\<close> (the bytes of the buffers of the calls made between
  two states of the writer), and what the transport took of it.
\<close>

definition handed :: "ResponseWriter \<Rightarrow> ResponseWriter \<Rightarrow> nat" where
  "handed w w' = length (concat (drop (length (written w)) (written w')))"

definition taken :: "ResponseWriter \<Rightarrow> ResponseWriter \<Rightarrow> nat" where
  "taken w w' = length (sent w') - length (sent w)"

subsection \<open>Requests\<close>

text \<open>
  The body of a request, as \<^verbatim>\<open>io.Copy\<close> sees it. A \<open>Reader\<close> is read call by call:
  the \<open>i\<close>-th \<^verbatim>\<open>Read\<close> returns a byte count and an error (the bytes themselves are
  thrown away and not modelled). A \<open>WriterTo\<close> is a body with a \<^verbatim>\<open>WriteTo\<close> method,
  which hands its buffers to the destination's \<^verbatim>\<open>Write\<close> and returns an error of its
  own; \<^verbatim>\<open>http.NoBody\<close>, the body of a request without one, is of this kind and hands
  over nothing. The bodies an HTTP server reads from a connection are of the first kind.
\<close>

type_synonym reader = "nat \<Rightarrow> nat \<times> go_error option"

datatype body = Reader reader | WriterTo "string list" "go_error option"

definition NoBody :: body where
  "NoBody = WriterTo [] None"

record Request =
  Method :: string
  Body :: body

subsection \<open>Download handlers\<close>

text \<open>
  \<^verbatim>\<open>pC.WithLabelValues(..., r.Method, "count")\<close>: the metrics library panics on a label
  value that is not valid UTF-8. The request's method is the only label value that is
  not a constant of the source; the calls with constant labels cannot panic and change
  nothing the handlers read.
\<close>

definition WithLabelValues :: "string \<Rightarrow> fault + unit" where
  "WithLabelValues v = (if ValidString v then Inr () else Inl InvalidLabelValue)"

definition log_write_error :: "int \<Rightarrow> go_error option \<Rightarrow> string" where
  "log_write_error contentLength err =
     ''Error writing content of length '' @ FormatInt contentLength @ '': '' @ fmt_error err"

definition smallHandler ::
  "handlers \<Rightarrow> ResponseWriter \<Rightarrow> Request \<Rightarrow> world \<Rightarrow> fault + (ResponseWriter \<times> world)"
where
  "smallHandler h w r g =
     (case WithLabelValues (Method r) of
        Inl f \<Rightarrow> Inl f
      | Inr _ \<Rightarrow>
          if Method r \<noteq> MethodGet \<and> Method r \<noteq> MethodHead then
            Inr (WriteHeader StatusMethodNotAllowed w, g)
          else
            let w1 = Header_Set ''Content-Length'' (FormatInt smallContentLength) w;
                w2 = Header_Set ''Content-Type'' ''application/octet-stream'' w1;
                w3 = (if EnableCORS h then setCors w2 else w2)
            in case chunkedBodyWriter h w3 smallContentLength g of
                 Inl f \<Rightarrow> Inl f
               | Inr (err, w4, g') \<Rightarrow>
                   if \<not> ignorableError err
                   then Inr (w4, log_Printf (log_write_error smallContentLength err) g')
                   else Inr (w4, g'))"

definition largeHandler ::
  "handlers \<Rightarrow> ResponseWriter \<Rightarrow> Request \<Rightarrow> world \<Rightarrow> fault + (ResponseWriter \<times> world)"
where
  "largeHandler h w r g =
     (case WithLabelValues (Method r) of
        Inl f \<Rightarrow> Inl f
      | Inr _ \<Rightarrow>
          if Method r \<noteq> MethodGet \<and> Method r \<noteq> MethodHead then
            Inr (WriteHeader StatusMethodNotAllowed w, g)
          else
            let w1 = Header_Set ''Content-Length'' (FormatInt largeContentLength) w;
                w2 = Header_Set ''Content-Type'' ''application/octet-stream'' w1;
                w3 = (if EnableCORS h then setCors w2 else w2)
            in if Method r \<noteq> MethodGet then Inr (w3, g)
               else
                 case chunkedBodyWriter h w3 largeContentLength g of
                   Inl f \<Rightarrow> Inl f
                 | Inr (err, w4, g') \<Rightarrow>
                     if \<not> ignorableError err
                     then Inr (w4, log_Printf (log_write_error largeContentLength err) g')
                     else Inr (w4, g'))"

text \<open>
  The headers both download handlers set before the body, for a target size; the
  handlers above write them out in line, as the source does.
\<close>

definition download_headers :: "handlers \<Rightarrow> int \<Rightarrow> ResponseWriter \<Rightarrow> ResponseWriter" where
  "download_headers h contentLength w =
     (let w1 = Header_Set ''Content-Length'' (FormatInt contentLength) w;
          w2 = Header_Set ''Content-Type'' ''application/octet-stream'' w1
      in if EnableCORS h then setCors w2 else w2)"

subsection \<open>The upload handler and the counting discard sink\<close>

definition setNoPublicCache :: "ResponseWriter \<Rightarrow> ResponseWriter" where
  "setNoPublicCache w =
     Header_Set ''Cache-Control'' ''no-store, must-revalidate, private, max-age=0''
       (Header_Set ''Proxy-Cache-Control'' ''max-age=604800, public'' w)"

record countingDiscard =
  byteCounter :: ptr

definition countingDiscard_Write :: "countingDiscard \<Rightarrow> string \<Rightarrow> nat \<times> go_error option" where
  "countingDiscard_Write cb p = (let x = length p in (x, None))"

definition countingDiscard_WriteString :: "countingDiscard \<Rightarrow> string \<Rightarrow> nat \<times> go_error option" where
  "countingDiscard_WriteString cb s = (let x = length s in (x, None))"

text \<open>
  The loop of \<^verbatim>\<open>ReadFrom\<close>, at the \<open>i\<close>-th read with \<open>n\<close> bytes read so far. It
  ends only when a read returns an error, so it is a partial function: \<open>None\<close> is the
  run that never returns. \<open>n\<close> is an \<^verbatim>\<open>int64\<close> and the counter a \<^verbatim>\<open>uint64\<close>;
  both wrap.
\<close>

partial_function (option) ReadFrom_loop ::
  "countingDiscard \<Rightarrow> reader \<Rightarrow> nat \<Rightarrow> 64 word \<Rightarrow> world
     \<Rightarrow> (fault + (64 word \<times> go_error option \<times> world)) option"
where
  "ReadFrom_loop cb r i n g =
     (case r i of
        (readSize, err) \<Rightarrow>
          (case atomic_AddUint64 (byteCounter cb) (of_nat readSize) g of
             Inl f \<Rightarrow> Some (Inl f)
           | Inr g' \<Rightarrow>
               (case err of
                  None \<Rightarrow> ReadFrom_loop cb r (Suc i) (n + of_nat readSize) g'
                | Some e \<Rightarrow>
                    if tag e = EOF then Some (Inr (n + of_nat readSize, None, g'))
                    else Some (Inr (n + of_nat readSize, Some e, g')))))"

definition ReadFrom ::
  "countingDiscard \<Rightarrow> reader \<Rightarrow> world \<Rightarrow> (fault + (64 word \<times> go_error option \<times> world)) option"
where
  "ReadFrom cb r g = ReadFrom_loop cb r 0 0 g"

text \<open>
  \<^verbatim>\<open>io.Copy(dst, src)\<close> with a \<^verbatim>\<open>countingDiscard\<close> as destination: a source with a
  \<^verbatim>\<open>WriteTo\<close> method copies itself through the destination's \<^verbatim>\<open>Write\<close>; any other
  source is handed to the destination's \<^verbatim>\<open>ReadFrom\<close>.
\<close>

definition io_Copy ::
  "countingDiscard \<Rightarrow> body \<Rightarrow> world \<Rightarrow> (fault + (64 word \<times> go_error option \<times> world)) option"
where
  "io_Copy dst src g =
     (case src of
        WriterTo ps err \<Rightarrow>
          Some (Inr (of_nat (sum_list (map (\<lambda>p. fst (countingDiscard_Write dst p)) ps)), err, g))
      | Reader r \<Rightarrow> ReadFrom dst r g)"

text \<open>\<^verbatim>\<open>http.Error\<close>: a plain-text reply with the given status and the message as a line.\<close>

definition http_Error :: "ResponseWriter \<Rightarrow> string \<Rightarrow> nat \<Rightarrow> ResponseWriter" where
  "http_Error w msg code =
     (let w1 = Header_Set ''Content-Type'' ''text/plain; charset=utf-8'' w;
          w2 = Header_Set ''X-Content-Type-Options'' ''nosniff'' w1;
          w3 = WriteHeader code w2
      in fst (Write (msg @ [CHR 0x0A]) w3))"

definition slurpHandler ::
  "handlers \<Rightarrow> ResponseWriter \<Rightarrow> Request \<Rightarrow> world \<Rightarrow> (fault + (ResponseWriter \<times> world)) option"
where
  "slurpHandler h w r g =
     (let w1 = Header_Set ''Content-Type'' ''application/octet-stream'' w;
          w2 = setNoPublicCache w1;
          w3 = (if EnableCORS h then setCors w2 else w2)
      in case io_Copy \<lparr>byteCounter = BytesReceived h\<rparr> (Body r) g of
           None \<Rightarrow> None
         | Some (Inl f) \<Rightarrow> Some (Inl f)
         | Some (Inr (_, Some err, g')) \<Rightarrow>
             Some (Inr (http_Error w3 (Error err) StatusBadRequest, g'))
         | Some (Inr (_, None, g')) \<Rightarrow>
             Some (Inr (WriteHeader StatusOK w3, g')))"

text \<open>The headers the upload handler sets before it reads the body.\<close>

definition upload_headers :: "handlers \<Rightarrow> ResponseWriter \<Rightarrow> ResponseWriter" where
  "upload_headers h w =
     (let w1 = Header_Set ''Content-Type'' ''application/octet-stream'' w;
          w2 = setNoPublicCache w1
      in if EnableCORS h then setCors w2 else w2)"

subsection \<open>Handler tables\<close>

type_synonym HandlerFunc =
  "ResponseWriter \<Rightarrow> Request \<Rightarrow> world \<Rightarrow> (fault + (ResponseWriter \<times> world)) option"

definition returns ::
  "(ResponseWriter \<Rightarrow> Request \<Rightarrow> world \<Rightarrow> fault + (ResponseWriter \<times> world)) \<Rightarrow> HandlerFunc"
where
  "returns f = (\<lambda>w r g. Some (f w r g))"

definition BulkHandlers :: "string \<Rightarrow> bool \<Rightarrow> (string \<rightharpoonup> HandlerFunc)" where
  "BulkHandlers prefix cors =
     (let h = \<lparr>EnableCORS = cors, BytesServed = None, BytesReceived = None\<rparr>
      in [prefix @ ''/small'' \<mapsto> returns (smallHandler h),
          prefix @ ''/large'' \<mapsto> returns (largeHandler h),
          prefix @ ''/slurp'' \<mapsto> slurpHandler h])"

definition CountingBulkHandlers :: "string \<Rightarrow> bool \<Rightarrow> ptr \<Rightarrow> ptr \<Rightarrow> (string \<rightharpoonup> HandlerFunc)" where
  "CountingBulkHandlers prefix cors bytesServed bytesReceived =
     (let h = \<lparr>EnableCORS = cors, BytesServed = bytesServed, BytesReceived = bytesReceived\<rparr>
      in [prefix @ ''/small'' \<mapsto> returns (smallHandler h),
          prefix @ ''/large'' \<mapsto> returns (largeHandler h),
          prefix @ ''/slurp'' \<mapsto> slurpHandler h])"

subsection \<open>The discovery document\<close>

definition generateSmallDownloadURL :: "Server \<Rightarrow> string" where
  "generateSmallDownloadURL m = Scheme m @ ''://'' @ PublicHostPort m @ ContextPath m @ ''/small''"

definition generateLargeDownloadURL :: "Server \<Rightarrow> string" where
  "generateLargeDownloadURL m = Scheme m @ ''://'' @ PublicHostPort m @ ContextPath m @ ''/large''"

definition generateUploadURL :: "Server \<Rightarrow> string" where
  "generateUploadURL m = Scheme m @ ''://'' @ PublicHostPort m @ ContextPath m @ ''/slurp''"

text \<open>The two struct values \<^verbatim>\<open>generateConfig\<close> builds: \<^verbatim>\<open>urls\<close> and \<^verbatim>\<open>resp\<close>.\<close>

record urls =
  SmallDownloadURL :: string
  LargeDownloadURL :: string
  UploadURL :: string
  SmallHTTPSDownloadURL :: string
  LargeHTTPSDownloadURL :: string
  HTTPSUploadURL :: string

record resp =
  Version :: int
  Urls :: urls

definition config_urls :: "Server \<Rightarrow> urls" where
  "config_urls m =
     \<lparr>SmallDownloadURL = generateSmallDownloadURL m,
      LargeDownloadURL = generateLargeDownloadURL m,
      UploadURL = generateUploadURL m,
      SmallHTTPSDownloadURL = generateSmallDownloadURL m,
      LargeHTTPSDownloadURL = generateLargeDownloadURL m,
      HTTPSUploadURL = generateUploadURL m\<rparr>"

definition config_resp :: "Server \<Rightarrow> resp" where
  "config_resp m = \<lparr>Version = 1, Urls = config_urls m\<rparr>"







text \<open>
  \<^verbatim>\<open>json.MarshalIndent(resp, "", "    ")\<close> for a value of this shape: one member a
  line, four spaces a level, the members named by their \<^verbatim>\<open>json\<close> tags. The encoder
  of the string values is the parameter \<open>enc\<close>; the library's is \<open>appendString\<close>
  above. Marshalling a struct of strings and an integer never fails, so the
  \<^verbatim>\<open>log.Fatal\<close> branch is never taken.
\<close>

definition json_member :: "nat \<Rightarrow> string \<Rightarrow> string \<Rightarrow> string" where
  "json_member depth name v =
     replicate (4 * depth) (CHR '' '') @ [CHR 0x22] @ name @ [CHR 0x22] @ '': '' @ v"

definition MarshalIndent :: "(string \<Rightarrow> string) \<Rightarrow> resp \<Rightarrow> string" where
  "MarshalIndent enc v =
     ''{'' @ [CHR 0x0A]
     @ json_member 1 ''version'' (FormatInt (Version v)) @ '','' @ [CHR 0x0A]
     @ json_member 1 ''urls'' ''{'' @ [CHR 0x0A]
     @ json_member 2 ''small_download_url'' (enc (SmallDownloadURL (Urls v))) @ '','' @ [CHR 0x0A]
     @ json_member 2 ''large_download_url'' (enc (LargeDownloadURL (Urls v))) @ '','' @ [CHR 0x0A]
     @ json_member 2 ''upload_url'' (enc (UploadURL (Urls v))) @ '','' @ [CHR 0x0A]
     @ json_member 2 ''small_https_download_url'' (enc (SmallHTTPSDownloadURL (Urls v))) @ '','' @ [CHR 0x0A]
     @ json_member 2 ''large_https_download_url'' (enc (LargeHTTPSDownloadURL (Urls v))) @ '','' @ [CHR 0x0A]
     @ json_member 2 ''https_upload_url'' (enc (HTTPSUploadURL (Urls v))) @ [CHR 0x0A]
     @ ''    }'' @ [CHR 0x0A]
     @ ''}''"

definition generateConfig :: "(string \<Rightarrow> string) \<Rightarrow> Server \<Rightarrow> Server" where
  "generateConfig enc m = m\<lparr>generatedConfig := MarshalIndent enc (config_resp m)\<rparr>"

text \<open>\<^verbatim>\<open>m.once.Do(f)\<close>: runs \<open>f\<close> unless an earlier call has, and marks it done.\<close>

definition once_Do :: "(Server \<Rightarrow> Server) \<Rightarrow> Server \<Rightarrow> Server" where
  "once_Do f m = (if once m then m else (f m)\<lparr>once := True\<rparr>)"

definition ConfigHandler ::
  "(string \<Rightarrow> string) \<Rightarrow> Server \<Rightarrow> ResponseWriter \<Rightarrow> Request \<Rightarrow> world
     \<Rightarrow> Server \<times> ResponseWriter \<times> world"
where
  "ConfigHandler enc m w r g =
     (if Method r \<noteq> MethodGet then (m, WriteHeader StatusMethodNotAllowed w, g)
      else
        let m' = once_Do (generateConfig enc) m;
            w1 = Header_Set ''Content-Type'' ''application/json'' w;
            w2 = (if EnableH3AltSvc m'
                  then Header_Set ''Alt-Svc'' (''h3='' @ [CHR 0x22] @ '':'' @ FormatInt (PublicPort m') @ [CHR 0x22]) w1
                  else w1);
            w3 = (if Server.EnableCORS m' then setCors w2 else w2)
        in case Write (generatedConfig m') w3 of
             (w4, _, Some err) \<Rightarrow> (m', w4, log_Printf (''could not write response: '' @ Error err) g)
           | (w4, _, None) \<Rightarrow> (m', w4, g))"

subsection \<open>Concurrent requests for the discovery document\<close>

text \<open>
  Requests are served concurrently, so \<^verbatim>\<open>ConfigHandler\<close> is also given statement by
  statement: a call in flight is a request, its response writer and the point it has
  reached. One step runs one statement on the shared server record and log.
  \<^verbatim>\<open>m.once.Do\<close> takes two points: entering it, a call goes on when the function has
  been run, waits while another call is running it (\<open>busy\<close>, the mutex of the
  \<^verbatim>\<open>sync.Once\<close>), and otherwise starts running it; at \<open>InBuild\<close> the function returns
  and the \<^verbatim>\<open>Once\<close> is marked done and released. Other calls and changes of the
  configuration may come between any two steps.
\<close>

datatype pc = AtMethodCheck | AtOnce | InBuild | AtHeaders | AtWrite | Returned

record call =
  req :: Request
  at :: pc
  rw :: ResponseWriter

definition ConfigHandler_step ::
  "(string \<Rightarrow> string) \<Rightarrow> call \<Rightarrow> Server \<Rightarrow> bool \<Rightarrow> world \<Rightarrow> call \<times> Server \<times> bool \<times> world"
where
  "ConfigHandler_step enc c m busy g =
     (case at c of
        AtMethodCheck \<Rightarrow>
          if Method (req c) \<noteq> MethodGet
          then (c\<lparr>at := Returned, rw := WriteHeader StatusMethodNotAllowed (rw c)\<rparr>, m, busy, g)
          else (c\<lparr>at := AtOnce\<rparr>, m, busy, g)
      | AtOnce \<Rightarrow>
          if once m then (c\<lparr>at := AtHeaders\<rparr>, m, busy, g)
          else if busy then (c, m, busy, g)
          else (c\<lparr>at := InBuild\<rparr>, m, True, g)
      | InBuild \<Rightarrow> (c\<lparr>at := AtHeaders\<rparr>, once_Do (generateConfig enc) m, False, g)
      | AtHeaders \<Rightarrow>
          (let w1 = Header_Set ''Content-Type'' ''application/json'' (rw c);
               w2 = (if EnableH3AltSvc m
                     then Header_Set ''Alt-Svc''
                            (''h3='' @ [CHR 0x22] @ '':'' @ FormatInt (PublicPort m) @ [CHR 0x22]) w1
                     else w1);
               w3 = (if Server.EnableCORS m then setCors w2 else w2)
           in (c\<lparr>at := AtWrite, rw := w3\<rparr>, m, busy, g))
      | AtWrite \<Rightarrow>
          (case Write (generatedConfig m) (rw c) of
             (w4, _, Some err) \<Rightarrow>
               (c\<lparr>at := Returned, rw := w4\<rparr>, m, busy,
                log_Printf (''could not write response: '' @ Error err) g)
           | (w4, _, None) \<Rightarrow> (c\<lparr>at := Returned, rw := w4\<rparr>, m, busy, g))
      | Returned \<Rightarrow> (c, m, busy, g))"

text \<open>A call alone on the server steps through to the result of \<^verbatim>\<open>ConfigHandler\<close>.\<close>

definition alone :: "(string \<Rightarrow> string) \<Rightarrow> call \<times> Server \<times> bool \<times> world \<Rightarrow> call \<times> Server \<times> bool \<times> world" where
  "alone enc x = (case x of (c, m, busy, g) \<Rightarrow> ConfigHandler_step enc c m busy g)"

text \<open>
  The environment mutates the exported configuration fields of the server; the cached
  document and the \<^verbatim>\<open>Once\<close> are unexported and touched by the handler only.
\<close>

datatype config_change =
    SetPublicPort int
  | SetPublicHostPort string
  | SetContextPath string
  | SetScheme string
  | SetEnableCORS bool
  | SetEnableH3AltSvc bool

fun apply_change :: "config_change \<Rightarrow> Server \<Rightarrow> Server" where
  "apply_change (SetPublicPort v) m = m\<lparr>PublicPort := v\<rparr>"
| "apply_change (SetPublicHostPort v) m = m\<lparr>PublicHostPort := v\<rparr>"
| "apply_change (SetContextPath v) m = m\<lparr>ContextPath := v\<rparr>"
| "apply_change (SetScheme v) m = m\<lparr>Scheme := v\<rparr>"
| "apply_change (SetEnableCORS v) m = m\<lparr>Server.EnableCORS := v\<rparr>"
| "apply_change (SetEnableH3AltSvc v) m = m\<lparr>EnableH3AltSvc := v\<rparr>"

text \<open>
  The system: the server, the mutex of its \<^verbatim>\<open>Once\<close>, the process state, the calls in
  flight, and a count of the runs of \<^verbatim>\<open>generateConfig\<close> (kept for the properties; no
  code reads it). An event is the arrival of a request, one step of the call with a
  given number, or a change of the configuration; a schedule is a list of events, and
  every interleaving of the calls is a schedule. A server starts with no document built.
\<close>

datatype event = Arrive Request ResponseWriter | Step nat | Configure config_change

record system =
  server :: Server
  building :: bool
  proc :: world
  calls :: "call list"
  builds :: nat

definition exec :: "(string \<Rightarrow> string) \<Rightarrow> event \<Rightarrow> system \<Rightarrow> system" where
  "exec enc ev s =
     (case ev of
        Arrive r w \<Rightarrow> s\<lparr>calls := calls s @ [\<lparr>req = r, at = AtMethodCheck, rw = w\<rparr>]\<rparr>
      | Step i \<Rightarrow>
          if i < length (calls s) then
            (case ConfigHandler_step enc (calls s ! i) (server s) (building s) (proc s) of
               (c', m', busy', g') \<Rightarrow>
                 s\<lparr>server := m', building := busy', proc := g', calls := (calls s)[i := c'],
                   builds := builds s
                     + (if at (calls s ! i) = InBuild \<and> \<not> once (server s) then 1 else 0)\<rparr>)
          else s
      | Configure ch \<Rightarrow> s\<lparr>server := apply_change ch (server s)\<rparr>)"

primrec run :: "(string \<Rightarrow> string) \<Rightarrow> event list \<Rightarrow> system \<Rightarrow> system" where
  "run enc [] s = s"
| "run enc (ev # evs) s = run enc evs (exec enc ev s)"

definition startup :: "Server \<Rightarrow> world \<Rightarrow> system" where
  "startup m g =
     \<lparr>server = m\<lparr>generatedConfig := [], once := False\<rparr>, building = False, proc = g,
      calls = [], builds = 0\<rparr>"

text \<open>A call that was served the document: a GET that has returned.\<close>

definition served :: "call \<Rightarrow> bool" where
  "served c = (at c = Returned \<and> Method (req c) = MethodGet)"

text \<open>
  The invariant of the system. A call is at \<open>InBuild\<close> only while the mutex is held
  and the \<^verbatim>\<open>Once\<close> is not done, and at most one call is; a call past
  \<^verbatim>\<open>once.Do\<close> finds the \<^verbatim>\<open>Once\<close> done; a served call was handed the cached document;
  and \<^verbatim>\<open>generateConfig\<close> has run once if the \<^verbatim>\<open>Once\<close> is done and never otherwise.
\<close>

definition ok :: "system \<Rightarrow> call \<Rightarrow> bool" where
  "ok s c =
     ((at c = InBuild \<longrightarrow> building s \<and> \<not> once (server s))
      \<and> (at c = AtHeaders \<or> at c = AtWrite \<or> served c \<longrightarrow> once (server s))
      \<and> (served c \<longrightarrow> written (rw c) \<noteq> [] \<and> last (written (rw c)) = generatedConfig (server s)))"

definition Inv :: "system \<Rightarrow> bool" where
  "Inv s =
     (builds s = (if once (server s) then 1 else 0)
      \<and> (\<forall>i < length (calls s). ok s (calls s ! i))
      \<and> (\<forall>i < length (calls s). \<forall>j < length (calls s).
            at (calls s ! i) = InBuild \<and> at (calls s ! j) = InBuild \<longrightarrow> i = j))"

subsection \<open>Vocabulary of the properties\<close>

text \<open>
  An error is a given condition (a broken pipe for the target \<open>EPIPE\<close>, a connection
  reset for \<open>ECONNRESET\<close>) when it is the sentinel itself, when its own \<^verbatim>\<open>Is\<close> method
  says it is, or when one of the errors it wraps is that condition.
\<close>

inductive is_condition :: "err_tag \<Rightarrow> go_error \<Rightarrow> bool" for target :: err_tag where
  same: "tag e = target \<Longrightarrow> is_condition target e"
| says: "target \<in> Is e \<Longrightarrow> is_condition target e"
| wraps: "u \<in> set (Unwrap e) \<Longrightarrow> is_condition target u \<Longrightarrow> is_condition target e"

code_pred is_condition .

text \<open>A log entry mentions a text when the text occurs in it as a run of characters.\<close>

fun mentions :: "string \<Rightarrow> string \<Rightarrow> bool" where
  "mentions [] t = (t = [])"
| "mentions (c # s) t = (take (length t) (c # s) = t \<or> mentions s t)"

text \<open>
  An upload that succeeds: the reads before the \<open>m\<close>-th return no error and the
  \<open>m\<close>-th returns \<^verbatim>\<open>io.EOF\<close>. The bytes it delivers are those of the reads up to
  and including that one.
\<close>

definition ends_at :: "reader \<Rightarrow> nat \<Rightarrow> bool" where
  "ends_at rd m =
     (list_all (\<lambda>j. snd (rd j) = None) [0..<m]
      \<and> (case snd (rd m) of None \<Rightarrow> False | Some e \<Rightarrow> tag e = EOF))"

definition delivered :: "reader \<Rightarrow> nat \<Rightarrow> nat" where
  "delivered rd m = sum_list (map (\<lambda>j. fst (rd j)) [0..<Suc m])"

text \<open>
  Example values for the concrete instances: handlers as \<^verbatim>\<open>CountingBulkHandlers\<close>
  builds them, with the served counter in cell 0 and the received counter in cell 1; a
  response writer nothing was written to; a process with zeroed counters and an empty
  log; the server of the specification's scenario; and some errors a transport returns.
\<close>

definition counting_handlers :: handlers where
  "counting_handlers = \<lparr>EnableCORS = False, BytesServed = Some 0, BytesReceived = Some 1\<rparr>"

definition fresh_writer :: ResponseWriter where
  "fresh_writer = \<lparr>header = Map.empty, status = None, written = [], sent = [], transport = []\<rparr>"

definition fresh_world :: world where
  "fresh_world = \<lparr>mem = (\<lambda>_. 0), logs = []\<rparr>"

definition example_server :: Server where
  "example_server =
     \<lparr>PublicPort = 4043, PublicHostPort = ''nq.example.com:4043'', ContextPath = [],
      Scheme = ''https'', EnableCORS = False, EnableH3AltSvc = False,
      BytesServed = 0, BytesReceived = 0, generatedConfig = [], once = False\<rparr>"

definition ErrBodyNotAllowed :: go_error where
  "ErrBodyNotAllowed =
     GoError Other ''http: request method or response status code does not allow body'' {} []"

definition err_timeout :: go_error where
  "err_timeout =
     GoError Other ''write tcp: i/o timeout'' {} [GoError Other ''i/o timeout'' {} []]"

definition err_broken_pipe :: go_error where
  "err_broken_pipe =
     GoError Other ''write tcp: write: broken pipe'' {}
       [GoError Other ''write: broken pipe'' {} [GoError (Errno 32) ''broken pipe'' {} []]]"

definition err_reset :: go_error where
  "err_reset =
     GoError Other ''read tcp: read: connection reset by peer'' {}
       [GoError Other ''read: connection reset by peer'' {}
          [GoError (Errno 104) ''connection reset by peer'' {} []]]"

definition err_says_reset :: go_error where
  "err_says_reset = GoError Other ''stream closed by peer'' {ECONNRESET} []"

definition err_wrapped_disconnect :: go_error where
  "err_wrapped_disconnect =
     GoError Other ''write: client disconnected'' {} [GoError Other ''client disconnected'' {} []]"

definition err_client_disconnected :: go_error where
  "err_client_disconnected = GoError Other ''client disconnected'' {} []"

definition io_EOF :: go_error where
  "io_EOF = GoError EOF ''EOF'' {} []"

definition three_reads :: reader where
  "three_reads i =
     (if i = 0 then (8192, None) else if i = 1 then (0, None) else (1808, Some io_EOF))"

text \<open>
  For the schedule below: the encoder's answer on a string with nothing to escape, a GET
  of the discovery document, and two such requests whose steps interleave with each
  other and with a change of the scheme.
\<close>

definition quoted :: "string \<Rightarrow> string" where
  "quoted s = [CHR 0x22] @ s @ [CHR 0x22]"

definition get_config :: Request where
  "get_config = \<lparr>Method = ''GET'', Body = NoBody\<rparr>"

definition two_requests :: "event list" where
  "two_requests =
     [Arrive get_config fresh_writer, Arrive get_config fresh_writer,
      Step 0, Step 1, Step 0, Step 1, Step 0, Configure (SetScheme ''http''), Step 1,
      Step 0, Step 0, Step 1, Step 1]"

subsection \<open>Reading the discovery document\<close>





















section \<open>Properties\<close>

subsection \<open>Method names as label values\<close>

lemma ValidString_ascii:
  "list_all (\<lambda>c. (of_char c :: nat) < 0x80) s \<Longrightarrow> ValidString s"
proof (induction s)
  case Nil
  then show ?case by (simp add: ValidString.simps)
next
  case (Cons c s)
  then have "rune_len (c # s) = 1" by simp
  with Cons show ?case by (subst ValidString.simps) simp
qed

lemma WithLabelValues_methods [simp]:
  "WithLabelValues MethodGet = Inr ()"
  "WithLabelValues MethodHead = Inr ()"
  "WithLabelValues ''GET'' = Inr ()"
  "WithLabelValues ''HEAD'' = Inr ()"
  "WithLabelValues ''DELETE'' = Inr ()"
  by (simp_all add: WithLabelValues_def MethodGet_def MethodHead_def ValidString_ascii)

subsection \<open>The response writer and the loop, step by step\<close>

lemma Write_written: "Write p w = (w', k, e) \<Longrightarrow> written w' = written w @ [p]"
  by (auto simp: Write_def Let_def WriteHeader_def split: list.splits write_outcome.splits if_splits)

lemma Write_ok: "Write p w = (w', k, None) \<Longrightarrow> sent w' = sent w @ p \<and> k = length p"
  by (auto simp: Write_def Let_def WriteHeader_def split: list.splits write_outcome.splits if_splits)

lemma chunkSize_pos: "0 < chunkSize"
  by (simp add: chunkSize_def)

lemma loop_done: "\<not> 0 < n \<Longrightarrow> chunkedBodyWriter_loop h n w g = Inr (None, w, g)"
  by (simp add: chunkedBodyWriter_loop.simps)

lemma loop_full:
  "chunkSize \<le> n \<Longrightarrow> BytesServed h = Some p \<Longrightarrow> Write buffed w = (w1, k, e) \<Longrightarrow>
   chunkedBodyWriter_loop h n w g =
     (case e of
        Some err \<Rightarrow> Inr (Some err, w1, g\<lparr>mem := (mem g)(p := mem g p + of_int chunkSize)\<rparr>)
      | None \<Rightarrow> chunkedBodyWriter_loop h (n - chunkSize) w1
                  (g\<lparr>mem := (mem g)(p := mem g p + of_int chunkSize)\<rparr>))"
  using chunkSize_pos
  by (subst chunkedBodyWriter_loop.simps) (simp add: atomic_AddUint64_def split: option.splits)

lemma loop_rest:
  "0 < n \<Longrightarrow> n < chunkSize \<Longrightarrow> BytesServed h = Some p \<Longrightarrow>
   Write (take (nat n) buffed) w = (w1, k, e) \<Longrightarrow>
   chunkedBodyWriter_loop h n w g = Inr (e, w1, g\<lparr>mem := (mem g)(p := mem g p + of_int n)\<rparr>)"
  by (subst chunkedBodyWriter_loop.simps) (simp add: atomic_AddUint64_def split: option.splits)

lemma loop_nil:
  "0 < n \<Longrightarrow> BytesServed h = None \<Longrightarrow>
   chunkedBodyWriter_loop h n w g = Inl NilPointerDereference"
  by (subst chunkedBodyWriter_loop.simps) (simp add: atomic_AddUint64_def)

lemma take_buffed:
  "0 \<le> n \<Longrightarrow> n \<le> chunkSize \<Longrightarrow> take (nat n) buffed = replicate (nat n) (CHR ''x'')"
  by (simp add: buffed_def min_def)

lemma div_step:
  assumes "chunkSize \<le> n"
  shows "nat (n div chunkSize) = Suc (nat ((n - chunkSize) div chunkSize))"
proof -
  have "n div chunkSize = (n - chunkSize) div chunkSize + 1"
    using assms chunkSize_pos by (simp add: div_pos_geq)
  moreover have "0 \<le> (n - chunkSize) div chunkSize"
    using assms chunkSize_pos by (simp add: pos_imp_zdiv_nonneg_iff)
  ultimately show ?thesis by simp
qed

lemma loop_success:
  assumes "BytesServed h = Some p"
    and "chunkedBodyWriter_loop h n w g = Inr (None, w', g')"
    and "0 \<le> n"
  shows "written w' = written w @ replicate (nat (n div chunkSize)) buffed @
           (if n mod chunkSize \<noteq> 0 then [take (nat (n mod chunkSize)) buffed] else [])
       \<and> sent w' = sent w @ replicate (nat n) (CHR ''x'')
       \<and> mem g' = (mem g)(p := mem g p + of_int n)
       \<and> logs g' = logs g"
  using assms
proof (induction "nat n" arbitrary: n w g rule: less_induct)
  case less
  show ?case
  proof (cases "n > 0")
    case False
    with less.prems show ?thesis by (simp add: loop_done)
  next
    case pos: True
    show ?thesis
    proof (cases "n \<ge> chunkSize")
      case True
      obtain w1 k e where W: "Write buffed w = (w1, k, e)"
        by (cases "Write buffed w") auto
      let ?g1 = "g\<lparr>mem := (mem g)(p := mem g p + of_int chunkSize)\<rparr>"
      from less.prems True W have e: "e = None"
        by (cases e) (simp_all add: loop_full)
      with less.prems True W
      have run: "chunkedBodyWriter_loop h (n - chunkSize) w1 ?g1 = Inr (None, w', g')"
        by (simp add: loop_full)
      from True have ge: "0 \<le> n - chunkSize" by simp
      have lt: "nat (n - chunkSize) < nat n" using True chunkSize_pos by simp
      note IH = less.hyps [OF lt less.prems(1) run ge]
      have m: "(n - chunkSize) mod chunkSize = n mod chunkSize"
        by simp
      have s: "buffed @ replicate (nat (n - chunkSize)) (CHR ''x'') = replicate (nat n) (CHR ''x'')"
        using True chunkSize_pos
        by (simp add: buffed_def replicate_add [symmetric] nat_add_distrib [symmetric])
      have wr: "written w1 = written w @ [buffed]" using Write_written [OF W] .
      have se: "sent w1 = sent w @ buffed" using Write_ok [OF W [unfolded e]] by simp
      have "written w' = written w @ replicate (nat (n div chunkSize)) buffed @
           (if n mod chunkSize \<noteq> 0 then [take (nat (n mod chunkSize)) buffed] else [])"
        using IH wr by (simp add: div_step [OF True] m)
      moreover have "sent w' = sent w @ replicate (nat n) (CHR ''x'')"
        using IH se s by simp
      moreover have "mem g' = (mem g)(p := mem g p + of_int n)"
        using IH by (simp add: fun_eq_iff)
      moreover have "logs g' = logs g" using IH by simp
      ultimately show ?thesis by simp
    next
      case False
      obtain w1 k e where W: "Write (take (nat n) buffed) w = (w1, k, e)"
        by (cases "Write (take (nat n) buffed) w") auto
      from less.prems pos False W have e: "e = None" and w1: "w1 = w'"
        and g': "g' = g\<lparr>mem := (mem g)(p := mem g p + of_int n)\<rparr>"
        by (simp_all add: loop_rest)
      have d: "n div chunkSize = 0" "n mod chunkSize = n" using pos False by simp_all
      from Write_written [OF W] Write_ok [OF W [unfolded e]] d pos False
      show ?thesis
        by (simp add: w1 g' take_buffed)
    qed
  qed
qed

lemma length_buffed: "length buffed = nat chunkSize"
  by (simp add: buffed_def)

lemma WriteHeader_written [simp]: "written (WriteHeader c w) = written w"
  by (simp add: WriteHeader_def)

lemma WriteHeader_sent [simp]: "sent (WriteHeader c w) = sent w"
  by (simp add: WriteHeader_def)

lemma WriteHeader_header [simp]: "header (WriteHeader c w) = header w"
  by (simp add: WriteHeader_def)

lemma WriteHeader_transport [simp]: "transport (WriteHeader c w) = transport w"
  by (simp add: WriteHeader_def)

text \<open>
  With a counter to add to, the loop always returns, and whatever it returns, it has
  counted the buffers of the writes it made and logged nothing.
\<close>

lemma loop_counts:
  assumes "BytesServed h = Some p"
  shows "\<exists>err w' g' ws. chunkedBodyWriter_loop h n w g = Inr (err, w', g')
           \<and> written w' = written w @ ws
           \<and> mem g' = (mem g)(p := mem g p + of_nat (length (concat ws)))
           \<and> logs g' = logs g"
proof (induction "nat n" arbitrary: n w g rule: less_induct)
  case less
  show ?case
  proof (cases "n > 0")
    case False
    then show ?thesis by (simp add: loop_done)
  next
    case pos: True
    show ?thesis
    proof (cases "n \<ge> chunkSize")
      case True
      obtain w1 k e where W: "Write buffed w = (w1, k, e)"
        by (cases "Write buffed w") auto
      let ?g1 = "g\<lparr>mem := (mem g)(p := mem g p + of_int chunkSize)\<rparr>"
      have wr: "written w1 = written w @ [buffed]" using Write_written [OF W] .
      have c: "(of_nat (length buffed) :: 64 word) = of_int chunkSize"
        using chunkSize_pos by (simp add: length_buffed)
      show ?thesis
      proof (cases e)
        case (Some err)
        with True W assms have "chunkedBodyWriter_loop h n w g = Inr (Some err, w1, ?g1)"
          by (simp add: loop_full)
        with wr c show ?thesis by simp
      next
        case None
        with True W assms
        have step: "chunkedBodyWriter_loop h n w g
            = chunkedBodyWriter_loop h (n - chunkSize) w1 ?g1"
          by (simp add: loop_full)
        have lt: "nat (n - chunkSize) < nat n" using True chunkSize_pos by simp
        from less.hyps [OF lt, of w1 ?g1]
        obtain err w' g' ws where
          r: "chunkedBodyWriter_loop h (n - chunkSize) w1 ?g1 = Inr (err, w', g')"
          and ws: "written w' = written w1 @ ws"
          and m: "mem g' = (mem ?g1)(p := mem ?g1 p + of_nat (length (concat ws)))"
          and l: "logs g' = logs ?g1"
          by blast
        have "written w' = written w @ (buffed # ws)" using ws wr by simp
        moreover have "mem g' = (mem g)(p := mem g p + of_nat (length (concat (buffed # ws))))"
          using m c by (simp add: fun_eq_iff)
        ultimately show ?thesis using step r l by auto
      qed
    next
      case False
      obtain w1 k e where W: "Write (take (nat n) buffed) w = (w1, k, e)"
        by (cases "Write (take (nat n) buffed) w") auto
      have wr: "written w1 = written w @ [take (nat n) buffed]" using Write_written [OF W] .
      have "length (take (nat n) buffed) = nat n"
        using pos False by (simp add: length_buffed)
      then have c: "(of_nat (length (take (nat n) buffed)) :: 64 word) = of_int n"
        using pos by simp
      from pos False W assms
      have "chunkedBodyWriter_loop h n w g
          = Inr (e, w1, g\<lparr>mem := (mem g)(p := mem g p + of_int n)\<rparr>)"
        by (simp add: loop_rest)
      with wr c show ?thesis by simp
    qed
  qed
qed

text \<open>
  A run with a counter, on a transport that takes every write, returns no error: the
  successful runs of the driver exist for every length.
\<close>

lemma Write_open:
  "transport w = [] \<Longrightarrow> \<exists>w'. Write p w = (w', length p, None) \<and> transport w' = []"
  by (simp add: Write_def Let_def)

lemma loop_succeeds:
  assumes "BytesServed h = Some p"
  shows "transport w = [] \<Longrightarrow> \<exists>w' g'. chunkedBodyWriter_loop h n w g = Inr (None, w', g')"
proof (induction "nat n" arbitrary: n w g rule: less_induct)
  case less
  show ?case
  proof (cases "n > 0")
    case False
    then show ?thesis by (simp add: loop_done)
  next
    case pos: True
    show ?thesis
    proof (cases "n \<ge> chunkSize")
      case True
      from Write_open [OF less.prems, of buffed]
      obtain w1 where W: "Write buffed w = (w1, length buffed, None)" and t: "transport w1 = []"
        by blast
      have lt: "nat (n - chunkSize) < nat n" using True chunkSize_pos by simp
      from less.hyps [OF lt t] loop_full [OF True assms W, of g] show ?thesis by simp
    next
      case False
      from Write_open [OF less.prems, of "take (nat n) buffed"]
      obtain w1 where W: "Write (take (nat n) buffed) w
          = (w1, length (take (nat n) buffed), None)"
        by blast
      from loop_rest [OF pos _ assms W, of g] False show ?thesis by simp
    qed
  qed
qed

lemma chunkedBodyWriter_succeeds:
  "BytesServed h = Some p \<Longrightarrow> transport w = [] \<Longrightarrow>
   \<exists>w' g'. chunkedBodyWriter h w N g = Inr (None, w', g')"
  using loop_succeeds [of h p "WriteHeader StatusOK w" N g]
  by (simp add: chunkedBodyWriter_def)

subsection \<open>The chunked transfer driver\<close>

text \<open>
  Claim C1. For every requested length \<open>N \<ge> 0\<close>, a run of \<^verbatim>\<open>chunkedBodyWriter\<close> that
  returns no error has made \<open>N div chunkSize\<close> writes of the full 64 KiB buffer, followed
  by one write of the first \<open>N mod chunkSize\<close> bytes exactly when that remainder is not
  zero; the destination has taken exactly \<open>N\<close> payload bytes; and the served counter has
  advanced by exactly \<open>N\<close> (as a \<^verbatim>\<open>uint64\<close>), no other cell of the memory changing.
\<close>

theorem chunkedBodyWriter_exact:
  assumes "BytesServed h = Some p"
    and "0 \<le> N"
    and "chunkedBodyWriter h w N g = Inr (None, w', g')"
  shows "written w' = written w @ replicate (nat (N div chunkSize)) buffed @
           (if N mod chunkSize \<noteq> 0 then [take (nat (N mod chunkSize)) buffed] else [])
       \<and> length buffed = 65536
       \<and> length (take (nat (N mod chunkSize)) buffed) = nat (N mod chunkSize)
       \<and> sent w' = sent w @ replicate (nat N) (CHR ''x'')
       \<and> mem g' = (mem g)(p := mem g p + of_int N)"
proof -
  have "N mod chunkSize < chunkSize" using chunkSize_pos by simp
  then have "length (take (nat (N mod chunkSize)) buffed) = nat (N mod chunkSize)"
    by (simp add: length_buffed)
  moreover have "length buffed = 65536" by (simp add: length_buffed chunkSize_def)
  ultimately show ?thesis
    using loop_success [OF assms(1) assms(3) [unfolded chunkedBodyWriter_def] assms(2)]
    by simp
qed

text \<open>Two full chunks and a remainder of three bytes: \<open>N = 2 * 65536 + 3\<close>.\<close>

lemma run_131075:
  "chunkedBodyWriter counting_handlers fresh_writer 131075 fresh_world =
     Inr (None,
       \<lparr>header = Map.empty, status = Some 200, written = [buffed, buffed, take 3 buffed],
        sent = buffed @ buffed @ take 3 buffed, transport = []\<rparr>,
       \<lparr>mem = (\<lambda>_. 0)(0 := 131075), logs = []\<rparr>)"
  by (simp add: chunkedBodyWriter_def chunkedBodyWriter_loop.simps counting_handlers_def
      fresh_writer_def fresh_world_def WriteHeader_def Write_def StatusOK_def chunkSize_def
      atomic_AddUint64_def)

theorem chunkedBodyWriter_exact_witness:
  "chunkedBodyWriter counting_handlers fresh_writer 131075 fresh_world =
     Inr (None,
       \<lparr>header = Map.empty, status = Some 200, written = [buffed, buffed, take 3 buffed],
        sent = buffed @ buffed @ take 3 buffed, transport = []\<rparr>,
       \<lparr>mem = (\<lambda>_. 0)(0 := 131075), logs = []\<rparr>)
   \<and> [buffed, buffed, take 3 buffed] = replicate 2 buffed @ [take 3 buffed]
   \<and> length buffed = 65536 \<and> length (take 3 buffed) = 3
   \<and> buffed @ buffed @ take 3 buffed = replicate 131075 (CHR ''x'')"
  using chunkedBodyWriter_exact [OF _ _ run_131075, of 0] run_131075
  by (simp add: counting_handlers_def fresh_writer_def fresh_world_def chunkSize_def
      numeral_2_eq_2)

text \<open>
  Claim C3, as amended. Every run of \<^verbatim>\<open>chunkedBodyWriter\<close> with a counter returns, and
  when it does, also after a failed write, the served counter has advanced by exactly
  the bytes of the buffers handed to the \<^verbatim>\<open>Write\<close> calls it made, the failing call's
  whole buffer included: the counter is advanced before each write and the byte count
  the write returns is not read. The writes made before the run are untouched.
\<close>

theorem chunkedBodyWriter_counts_handed:
  assumes "BytesServed h = Some p"
  shows "\<exists>err w' g'. chunkedBodyWriter h w N g = Inr (err, w', g')
           \<and> take (length (written w)) (written w') = written w
           \<and> mem g' = (mem g)(p := mem g p + of_nat (handed w w'))"
proof -
  from loop_counts [OF assms, of N "WriteHeader StatusOK w" g]
  obtain err w' g' ws where
    r: "chunkedBodyWriter_loop h N (WriteHeader StatusOK w) g = Inr (err, w', g')"
    and ws: "written w' = written w @ ws"
    and m: "mem g' = (mem g)(p := mem g p + of_nat (length (concat ws)))"
    by auto
  have "handed w w' = length (concat ws)" using ws by (simp add: handed_def)
  with r ws m show ?thesis by (simp add: chunkedBodyWriter_def)
qed

text \<open>
  An instance: the first write is taken, the second fails after ten bytes; both full
  buffers are counted.
\<close>

theorem chunkedBodyWriter_counts_handed_witness:
  "chunkedBodyWriter counting_handlers (fresh_writer\<lparr>transport := [Accept, Fail 10 err_timeout]\<rparr>) 200000 fresh_world
     = Inr (Some err_timeout,
         \<lparr>header = Map.empty, status = Some 200, written = [buffed, buffed],
          sent = buffed @ take 10 buffed, transport = []\<rparr>,
         \<lparr>mem = (\<lambda>_. 0)(0 := 131072), logs = []\<rparr>)
   \<and> handed (fresh_writer\<lparr>transport := [Accept, Fail 10 err_timeout]\<rparr>)
        \<lparr>header = Map.empty, status = Some 200, written = [buffed, buffed],
          sent = buffed @ take 10 buffed, transport = []\<rparr> = 131072"
  using chunkedBodyWriter_counts_handed [of counting_handlers 0 "fresh_writer\<lparr>transport := [Accept, Fail 10 err_timeout]\<rparr>" 200000 fresh_world]
  by (simp add: chunkedBodyWriter_def chunkedBodyWriter_loop.simps counting_handlers_def
      fresh_writer_def fresh_world_def WriteHeader_def Write_def StatusOK_def chunkSize_def
      atomic_AddUint64_def handed_def length_buffed)

text \<open>
  Claim C3 as stated fails: when the transport refuses the only write of a one-byte
  response and takes nothing, the served counter has advanced by one all the same.
\<close>

theorem counter_counts_refused_write:
  "chunkedBodyWriter counting_handlers (fresh_writer\<lparr>transport := [Fail 0 err_timeout]\<rparr>) 1 fresh_world
     = Inr (Some err_timeout,
         \<lparr>header = Map.empty, status = Some 200, written = [take 1 buffed],
          sent = [], transport = []\<rparr>,
         \<lparr>mem = (\<lambda>_. 0)(0 := 1), logs = []\<rparr>)
   \<and> taken (fresh_writer\<lparr>transport := [Fail 0 err_timeout]\<rparr>)
        \<lparr>header = Map.empty, status = Some 200, written = [take 1 buffed],
          sent = [], transport = []\<rparr> = 0
   \<and> mem \<lparr>mem = (\<lambda>_. 0)(0 := 1), logs = []\<rparr> 0
        \<noteq> mem fresh_world 0 + of_nat (taken (fresh_writer\<lparr>transport := [Fail 0 err_timeout]\<rparr>)
        \<lparr>header = Map.empty, status = Some 200, written = [take 1 buffed],
          sent = [], transport = []\<rparr>)"
  by (simp add: chunkedBodyWriter_def chunkedBodyWriter_loop.simps counting_handlers_def
      fresh_writer_def fresh_world_def WriteHeader_def Write_def StatusOK_def chunkSize_def
      atomic_AddUint64_def taken_def)

subsection \<open>The error classifier\<close>

lemma errors_Is_condition: "errors_Is e target \<longleftrightarrow> is_condition target e"
proof
  show "errors_Is e target \<Longrightarrow> is_condition target e"
  proof (induction e)
    case (GoError t s accepts us)
    from GoError.prems
    consider "t = target" | "target \<in> accepts" | u where "u \<in> set us" "errors_Is u target"
      by (auto simp: list_ex_iff)
    then show ?case
    proof cases
      case 1
      then show ?thesis by (simp add: is_condition.same)
    next
      case 2
      then show ?thesis by (simp add: is_condition.says)
    next
      case 3
      from GoError.IH [OF 3] 3(1) show ?thesis
        by (auto intro: is_condition.wraps)
    qed
  qed
next
  show "is_condition target e \<Longrightarrow> errors_Is e target"
  proof (induction rule: is_condition.induct)
    case (same e)
    then show ?case by (cases e) simp
  next
    case (says e)
    then show ?case by (cases e) simp
  next
    case (wraps u e)
    then show ?case by (cases e) (auto simp: list_ex_iff)
  qed
qed

text \<open>
  Claim C7. \<^verbatim>\<open>ignorableError\<close> answers true exactly for no error, for a broken-pipe
  condition, for a connection-reset condition, and for an error whose text is
  \<^verbatim>\<open>client disconnected\<close> (the signal of the HTTP/2 layer, which the code can only
  tell by its text); for every other error it answers false. An error is such a
  condition when it is the \<^verbatim>\<open>syscall\<close> sentinel, when its own \<^verbatim>\<open>Is\<close> method says
  so, or when an error it wraps is one.
\<close>

theorem ignorableError_exactly:
  "ignorableError err \<longleftrightarrow>
     (case err of
        None \<Rightarrow> True
      | Some e \<Rightarrow>
          is_condition EPIPE e \<or> is_condition ECONNRESET e \<or> Error e = ''client disconnected'')"
  by (auto simp: ignorableError_def errors_Is_condition split: option.split)

text \<open>
  Ignorable: no error, wrapped \<^verbatim>\<open>EPIPE\<close> and \<^verbatim>\<open>ECONNRESET\<close>, an error whose
  \<^verbatim>\<open>Is\<close> method answers for \<^verbatim>\<open>ECONNRESET\<close>, and the disconnect text. Not ignorable: a
  timeout, a refused body, the end of a stream, and an error that only wraps the
  disconnect signal under another text.
\<close>

theorem ignorableError_exactly_witness:
  "ignorableError None \<and> ignorableError (Some err_broken_pipe) \<and> ignorableError (Some err_reset)
   \<and> ignorableError (Some err_says_reset) \<and> ignorableError (Some err_client_disconnected)
   \<and> \<not> ignorableError (Some err_timeout) \<and> \<not> ignorableError (Some ErrBodyNotAllowed)
   \<and> \<not> ignorableError (Some io_EOF) \<and> \<not> ignorableError (Some err_wrapped_disconnect)"
  using ignorableError_exactly [of None] ignorableError_exactly [of "Some err_broken_pipe"]
    ignorableError_exactly [of "Some err_reset"] ignorableError_exactly [of "Some err_says_reset"]
    ignorableError_exactly [of "Some err_client_disconnected"]
    ignorableError_exactly [of "Some err_timeout"] ignorableError_exactly [of "Some ErrBodyNotAllowed"]
    ignorableError_exactly [of "Some io_EOF"] ignorableError_exactly [of "Some err_wrapped_disconnect"]
  by (simp add: ignorableError_def err_broken_pipe_def err_reset_def err_says_reset_def
      err_client_disconnected_def err_timeout_def ErrBodyNotAllowed_def io_EOF_def
      err_wrapped_disconnect_def EPIPE_def ECONNRESET_def)

subsection \<open>The discovery document's URLs\<close>




lemma char_byte: "(of_char c :: nat) = n \<Longrightarrow> (of_char d :: nat) = n \<Longrightarrow> c = d"
  by (metis of_char_eq_iff)












lemma ValidString_Nil: "ValidString []"
  by (simp add: ValidString.simps)






















subsection \<open>Methods that are not allowed\<close>

text \<open>
  On a response nothing was written to yet, a request whose method is valid UTF-8 and
  neither GET nor HEAD gets status 405 from a download handler and nothing else: no
  body is written, no header is set, and the memory with both byte counters and the
  log are unchanged. The discovery handler answers so for every method but GET.
\<close>

lemma method_not_allowed_valid:
  assumes "status w = None"
  shows "(ValidString (Method r) \<and> Method r \<noteq> MethodGet \<and> Method r \<noteq> MethodHead \<longrightarrow>
            smallHandler h w r g = Inr (w\<lparr>status := Some 405\<rparr>, g)
          \<and> largeHandler h w r g = Inr (w\<lparr>status := Some 405\<rparr>, g))
       \<and> (Method r \<noteq> MethodGet \<longrightarrow> ConfigHandler enc m w r g = (m, w\<lparr>status := Some 405\<rparr>, g))"
  using assms
  by (simp add: smallHandler_def largeHandler_def ConfigHandler_def WithLabelValues_def
      WriteHeader_def StatusMethodNotAllowed_def)

lemma method_not_allowed_DELETE:
  "smallHandler counting_handlers fresh_writer \<lparr>Method = ''DELETE'', Body = NoBody\<rparr> fresh_world
      = Inr (fresh_writer\<lparr>status := Some 405\<rparr>, fresh_world)
   \<and> largeHandler counting_handlers fresh_writer \<lparr>Method = ''DELETE'', Body = NoBody\<rparr> fresh_world
      = Inr (fresh_writer\<lparr>status := Some 405\<rparr>, fresh_world)
   \<and> ConfigHandler id example_server fresh_writer \<lparr>Method = ''HEAD'', Body = NoBody\<rparr> fresh_world
      = (example_server, fresh_writer\<lparr>status := Some 405\<rparr>, fresh_world)"
  using method_not_allowed_valid [of fresh_writer "\<lparr>Method = ''DELETE'', Body = NoBody\<rparr>"
      counting_handlers fresh_world id example_server]
    method_not_allowed_valid [of fresh_writer "\<lparr>Method = ''HEAD'', Body = NoBody\<rparr>"
      counting_handlers fresh_world id example_server]
  by (simp add: fresh_writer_def MethodGet_def MethodHead_def ValidString_ascii)

lemma not_ValidString_FF: "\<not> ValidString [CHR 0xFF]"
  by (simp add: ValidString.simps)

text \<open>
  Claim C6 fails on the download endpoints for a method that is not valid UTF-8, such
  as the single byte \<^verbatim>\<open>0xFF\<close>: both handlers hand the method to the metrics library
  as a label value before they look at it, the library panics, and no 405 is written.
  The discovery handler, which records no metric, answers the same request with 405.
  In both cases the byte counters are unchanged.
\<close>

theorem download_handlers_panic_on_invalid_method:
  "smallHandler counting_handlers fresh_writer \<lparr>Method = [CHR 0xFF], Body = NoBody\<rparr> fresh_world
      = Inl InvalidLabelValue
   \<and> largeHandler counting_handlers fresh_writer \<lparr>Method = [CHR 0xFF], Body = NoBody\<rparr> fresh_world
      = Inl InvalidLabelValue
   \<and> ConfigHandler quoted example_server fresh_writer \<lparr>Method = [CHR 0xFF], Body = NoBody\<rparr>
        fresh_world
      = (example_server, fresh_writer\<lparr>status := Some 405\<rparr>, fresh_world)"
  by (simp add: smallHandler_def largeHandler_def ConfigHandler_def WithLabelValues_def
      not_ValidString_FF MethodGet_def WriteHeader_def StatusMethodNotAllowed_def fresh_writer_def)

subsection \<open>The read loop of the discard sink\<close>

lemma ReadFrom_loop_nil:
  "byteCounter cb = None \<Longrightarrow> ReadFrom_loop cb rd i n g = Some (Inl NilPointerDereference)"
  by (subst ReadFrom_loop.simps) (simp add: atomic_AddUint64_def split: prod.split)

lemma ReadFrom_loop_step:
  "byteCounter cb = Some p \<Longrightarrow> rd i = (k, None) \<Longrightarrow>
   ReadFrom_loop cb rd i n g =
     ReadFrom_loop cb rd (Suc i) (n + of_nat k) (g\<lparr>mem := (mem g)(p := mem g p + of_nat k)\<rparr>)"
  by (subst ReadFrom_loop.simps) (simp add: atomic_AddUint64_def)

lemma ReadFrom_loop_stop:
  "byteCounter cb = Some p \<Longrightarrow> rd i = (k, Some e) \<Longrightarrow>
   ReadFrom_loop cb rd i n g =
     Some (Inr (n + of_nat k, if tag e = EOF then None else Some e,
                g\<lparr>mem := (mem g)(p := mem g p + of_nat k)\<rparr>))"
  by (subst ReadFrom_loop.simps) (simp add: atomic_AddUint64_def)

lemma ReadFrom_loop_runs:
  assumes "byteCounter cb = Some p"
    and "\<forall>j. i \<le> j \<and> j < m \<longrightarrow> snd (rd j) = None"
    and "snd (rd m) = Some e"
    and "i \<le> m"
  shows "ReadFrom_loop cb rd i n g =
     Some (Inr (n + of_nat (sum_list (map (\<lambda>j. fst (rd j)) [i..<Suc m])),
                if tag e = EOF then None else Some e,
                g\<lparr>mem := (mem g)(p := mem g p + of_nat (sum_list (map (\<lambda>j. fst (rd j)) [i..<Suc m])))\<rparr>))"
  using assms
proof (induction "m - i" arbitrary: i n g)
  case 0
  then have "i = m" by simp
  with 0 have "rd i = (fst (rd m), Some e)" by (simp add: prod_eq_iff)
  from ReadFrom_loop_stop [of cb p rd i "fst (rd m)" e n g, OF 0(2) this] \<open>i = m\<close>
  show ?case by (simp add: fun_upd_def)
next
  case (Suc d)
  then have lt: "i < m" by simp
  with Suc.prems have "snd (rd i) = None" by simp
  then have ri: "rd i = (fst (rd i), None)" by (simp add: prod_eq_iff)
  have d: "d = m - Suc i" using Suc.hyps(2) by simp
  have all: "\<forall>j. Suc i \<le> j \<and> j < m \<longrightarrow> snd (rd j) = None" using Suc.prems by simp
  have le: "Suc i \<le> m" using lt by simp
  have up: "[i..<Suc m] = i # [Suc i..<Suc m]" using lt by (simp add: upt_conv_Cons)
  have sum: "sum_list (map (\<lambda>j. fst (rd j)) [i..<Suc m])
      = fst (rd i) + sum_list (map (\<lambda>j. fst (rd j)) [Suc i..<Suc m])"
    by (simp only: up list.map sum_list.Cons)
  show ?case
    unfolding ReadFrom_loop_step [of cb p rd i "fst (rd i)" n g, OF Suc.prems(1) ri]
    by (subst Suc.hyps(1) [OF d Suc.prems(1) all Suc.prems(3) le])
      (simp add: sum add.assoc del: upt_Suc)
qed

lemma ReadFrom_loop_no_fault:
  assumes "ReadFrom_loop cb rd i n g = Some y"
  shows "byteCounter cb \<noteq> None \<longrightarrow> (\<exists>v. y = Inr v)"
proof (induct rule: ReadFrom_loop.raw_induct [OF _ assms])
  case (1 loop cb rd i n g y)
  show ?case
  proof
    assume "byteCounter cb \<noteq> None"
    then obtain p where p: "byteCounter cb = Some p" by auto
    obtain k e where r: "rd i = (k, e)" by (cases "rd i") auto
    show "\<exists>v. y = Inr v"
    proof (cases e)
      case None
      let ?g = "g\<lparr>mem := (mem g)(p := mem g p + of_nat k)\<rparr>"
      from 1(2) p r None have a: "loop cb rd (Suc i) (n + of_nat k) ?g = Some y"
        by (simp add: atomic_AddUint64_def)
      from 1(1) [OF a] p show ?thesis by simp
    next
      case (Some err)
      with 1(2) p r show ?thesis
        by (auto simp: atomic_AddUint64_def split: if_splits)
    qed
  qed
qed

lemma ReadFrom_ends:
  assumes "byteCounter cb = Some p" and "ends_at rd m"
  shows "ReadFrom cb rd g =
     Some (Inr (of_nat (delivered rd m), None,
                g\<lparr>mem := (mem g)(p := mem g p + of_nat (delivered rd m))\<rparr>))"
proof -
  from assms(2) obtain e where e: "snd (rd m) = Some e" "tag e = EOF"
    by (auto simp: ends_at_def split: option.splits)
  from assms(2) have all: "\<forall>j. 0 \<le> j \<and> j < m \<longrightarrow> snd (rd j) = None"
    by (auto simp: ends_at_def list_all_iff)
  from ReadFrom_loop_runs [OF assms(1) all e(1), of 0 g] e(2)
  show ?thesis by (simp add: ReadFrom_def delivered_def del: upt_Suc)
qed

subsection \<open>The upload handler\<close>

text \<open>
  An upload of \<open>K\<close> bytes whose body is read through \<^verbatim>\<open>Read\<close> calls and that succeeds,
  however the body hands the bytes over (any number of reads of any sizes, empty reads
  among them, the last bytes arriving with or before the end of the stream), and also
  an upload with no body at all (\<open>K = 0\<close>), advances the received counter by exactly
  \<open>K\<close> and nothing else in the memory; the response has status 200, the upload
  headers, and no body.
\<close>

lemma slurpHandler_counts:
  assumes "BytesReceived h = Some p"
    and "status w = None"
    and "Body r = Reader rd \<and> ends_at rd m \<and> K = delivered rd m \<or> Body r = NoBody \<and> K = 0"
  shows "slurpHandler h w r g
           = Some (Inr ((upload_headers h w)\<lparr>status := Some 200\<rparr>,
                        g\<lparr>mem := (mem g)(p := mem g p + of_nat K)\<rparr>))
         \<and> written (upload_headers h w) = written w \<and> sent (upload_headers h w) = sent w"
  using assms(3)
proof
  assume a: "Body r = Reader rd \<and> ends_at rd m \<and> K = delivered rd m"
  have "byteCounter \<lparr>byteCounter = BytesReceived h\<rparr> = Some p" using assms(1) by simp
  from ReadFrom_ends [OF this, of rd m g] a assms(2)
  show ?thesis
    by (simp add: slurpHandler_def upload_headers_def io_Copy_def Let_def WriteHeader_def
        StatusOK_def setNoPublicCache_def setCors_def Header_Set_def)
next
  assume a: "Body r = NoBody \<and> K = 0"
  with assms(2) show ?thesis
    by (simp add: slurpHandler_def upload_headers_def io_Copy_def NoBody_def Let_def
        WriteHeader_def StatusOK_def setNoPublicCache_def setCors_def Header_Set_def)
qed

text \<open>Three reads of 8192, 0 and 1808 bytes, the last one with the end of the stream.\<close>

lemma slurpHandler_counts_three_reads:
  "slurpHandler counting_handlers fresh_writer \<lparr>Method = ''POST'', Body = Reader three_reads\<rparr> fresh_world
     = Some (Inr (\<lparr>header = [''Content-Type'' \<mapsto> ''application/octet-stream'',
                           ''Proxy-Cache-Control'' \<mapsto> ''max-age=604800, public'',
                           ''Cache-Control'' \<mapsto> ''no-store, must-revalidate, private, max-age=0''],
                 status = Some 200, written = [], sent = [], transport = []\<rparr>,
                \<lparr>mem = (\<lambda>_. 0)(1 := 10000), logs = []\<rparr>))"
proof -
  have e: "ends_at three_reads 2"
    by (simp add: ends_at_def three_reads_def io_EOF_def numeral_2_eq_2)
  have d: "delivered three_reads 2 = 10000"
    by (simp add: delivered_def three_reads_def numeral_2_eq_2)
  from slurpHandler_counts [of counting_handlers 1 fresh_writer
      "\<lparr>Method = ''POST'', Body = Reader three_reads\<rparr>" three_reads 2 10000 fresh_world] e d
  show ?thesis
    by (simp add: counting_handlers_def fresh_writer_def fresh_world_def upload_headers_def
        setNoPublicCache_def Header_Set_def)
qed

text \<open>
  Claim C4 fails for a body that has a \<^verbatim>\<open>WriteTo\<close> method and carries bytes (a
  \<^verbatim>\<open>strings.Reader\<close> or \<^verbatim>\<open>bytes.Reader\<close> behind \<^verbatim>\<open>io.NopCloser\<close>, as a test request
  has it). \<^verbatim>\<open>io.Copy\<close> then lets the body write itself to the sink, and the sink's
  \<^verbatim>\<open>Write\<close> and \<^verbatim>\<open>WriteString\<close> return the length without counting, unlike
  \<^verbatim>\<open>ReadFrom\<close>: the upload of three bytes succeeds with status 200 and an empty
  response body, and the received counter has not moved.
\<close>

theorem slurpHandler_WriteTo_not_counted:
  "slurpHandler counting_handlers fresh_writer \<lparr>Method = ''POST'', Body = WriterTo [''abc''] None\<rparr>
       fresh_world
     = Some (Inr (\<lparr>header = [''Content-Type'' \<mapsto> ''application/octet-stream'',
                           ''Proxy-Cache-Control'' \<mapsto> ''max-age=604800, public'',
                           ''Cache-Control'' \<mapsto> ''no-store, must-revalidate, private, max-age=0''],
                 status = Some 200, written = [], sent = [], transport = []\<rparr>,
                fresh_world))
   \<and> io_Copy \<lparr>byteCounter = Some 1\<rparr> (WriterTo [''abc''] None) fresh_world
     = Some (Inr (3, None, fresh_world))
   \<and> countingDiscard_Write \<lparr>byteCounter = Some 1\<rparr> ''abc'' = (3, None)
   \<and> countingDiscard_WriteString \<lparr>byteCounter = Some 1\<rparr> ''abc'' = (3, None)"
  by (simp add: slurpHandler_def io_Copy_def countingDiscard_Write_def
      countingDiscard_WriteString_def counting_handlers_def fresh_writer_def
      setNoPublicCache_def Header_Set_def WriteHeader_def StatusOK_def Let_def)

subsection \<open>Logging of write failures\<close>

lemma mentions_here: "mentions (t @ b) t"
proof (cases "t @ b")
  case Nil
  then show ?thesis by simp
next
  case (Cons c s)
  have "take (length t) (t @ b) = t" by simp
  with Cons show ?thesis by simp
qed

lemma mentions_append: "mentions (a @ t @ b) t"
  by (induction a) (simp_all add: mentions_here)

text \<open>The driver itself logs nothing.\<close>

lemma chunkedBodyWriter_logs:
  assumes "chunkedBodyWriter h w N g = Inr (e, w', g')"
  shows "logs g' = logs g"
proof (cases "BytesServed h")
  case None
  show ?thesis
  proof (cases "0 < N")
    case True
    with None assms show ?thesis by (simp add: chunkedBodyWriter_def loop_nil)
  next
    case False
    with assms show ?thesis by (simp add: chunkedBodyWriter_def loop_done)
  qed
next
  case (Some p)
  from loop_counts [OF Some, of N "WriteHeader StatusOK w" g] assms
  show ?thesis by (auto simp: chunkedBodyWriter_def)
qed

text \<open>
  Claim C8, as amended. When the driver's write fails during a GET of a download
  endpoint, the handler adds no log entry if the failure is ignorable and exactly one
  otherwise; that entry is \<^verbatim>\<open>Error writing content of length\<close>, the target size in
  decimal, a colon and the error's text, so it names the target size and the error, and
  the endpoint only through its size.
\<close>

theorem write_failure_logged_once:
  assumes "Method r = MethodGet"
  shows "(chunkedBodyWriter h (download_headers h smallContentLength w) smallContentLength g
            = Inr (Some e, w', g') \<longrightarrow>
          smallHandler h w r g
            = Inr (w', g'\<lparr>logs := logs g @ (if ignorableError (Some e) then []
                                          else [log_write_error smallContentLength (Some e)])\<rparr>))
       \<and> (chunkedBodyWriter h (download_headers h largeContentLength w) largeContentLength g
            = Inr (Some e, w', g') \<longrightarrow>
          largeHandler h w r g
            = Inr (w', g'\<lparr>logs := logs g @ (if ignorableError (Some e) then []
                                          else [log_write_error largeContentLength (Some e)])\<rparr>))
       \<and> log_write_error N (Some e)
            = ''Error writing content of length '' @ FormatInt N @ '': '' @ Error e
       \<and> mentions (log_write_error N (Some e)) (FormatInt N)
       \<and> mentions (log_write_error N (Some e)) (Error e)"
proof -
  have small: "smallHandler h w r g
            = Inr (w', g'\<lparr>logs := logs g @ (if ignorableError (Some e) then []
                                          else [log_write_error smallContentLength (Some e)])\<rparr>)"
    if a: "chunkedBodyWriter h (download_headers h smallContentLength w) smallContentLength g
            = Inr (Some e, w', g')"
    using a assms chunkedBodyWriter_logs [OF a]
    by (simp add: smallHandler_def download_headers_def Let_def log_Printf_def MethodGet_def)
  have large: "largeHandler h w r g
            = Inr (w', g'\<lparr>logs := logs g @ (if ignorableError (Some e) then []
                                          else [log_write_error largeContentLength (Some e)])\<rparr>)"
    if a: "chunkedBodyWriter h (download_headers h largeContentLength w) largeContentLength g
            = Inr (Some e, w', g')"
    using a assms chunkedBodyWriter_logs [OF a]
    by (simp add: largeHandler_def download_headers_def Let_def log_Printf_def MethodGet_def)
  have m1: "mentions (log_write_error N (Some e)) (FormatInt N)"
    unfolding log_write_error_def by (rule mentions_append)
  have "mentions ((''Error writing content of length '' @ FormatInt N @ '': '') @ Error e @ []) (Error e)"
    by (rule mentions_append)
  then have m2: "mentions (log_write_error N (Some e)) (Error e)"
    by (simp add: log_write_error_def fmt_error_def)
  show ?thesis using small large m1 m2 by (simp add: log_write_error_def fmt_error_def)
qed

lemma small_timeout_run:
  "chunkedBodyWriter counting_handlers
      (download_headers counting_handlers smallContentLength (fresh_writer\<lparr>transport := [Fail 0 err_timeout]\<rparr>))
      smallContentLength fresh_world
   = Inr (Some err_timeout,
          \<lparr>header = [''Content-Length'' \<mapsto> ''1'', ''Content-Type'' \<mapsto> ''application/octet-stream''],
           status = Some 200, written = [''x''], sent = [], transport = []\<rparr>,
          \<lparr>mem = (\<lambda>_. 0)(0 := 1), logs = []\<rparr>)"
  by (simp add: counting_handlers_def fresh_writer_def fresh_world_def download_headers_def
      Header_Set_def chunkedBodyWriter_def chunkedBodyWriter_loop.simps
      smallContentLength_def chunkSize_def atomic_AddUint64_def Write_def WriteHeader_def StatusOK_def
      FormatInt_def decimal.simps digit_def buffed_def)

lemma small_broken_pipe_run:
  "chunkedBodyWriter counting_handlers
      (download_headers counting_handlers smallContentLength (fresh_writer\<lparr>transport := [Fail 0 err_broken_pipe]\<rparr>))
      smallContentLength fresh_world
   = Inr (Some err_broken_pipe,
          \<lparr>header = [''Content-Length'' \<mapsto> ''1'', ''Content-Type'' \<mapsto> ''application/octet-stream''],
           status = Some 200, written = [''x''], sent = [], transport = []\<rparr>,
          \<lparr>mem = (\<lambda>_. 0)(0 := 1), logs = []\<rparr>)"
  by (simp add: counting_handlers_def fresh_writer_def fresh_world_def download_headers_def
      Header_Set_def chunkedBodyWriter_def chunkedBodyWriter_loop.simps
      smallContentLength_def chunkSize_def atomic_AddUint64_def Write_def WriteHeader_def StatusOK_def
      FormatInt_def decimal.simps digit_def buffed_def)

theorem write_failure_logged_once_witness:
  "smallHandler counting_handlers (fresh_writer\<lparr>transport := [Fail 0 err_timeout]\<rparr>)
       \<lparr>Method = ''GET'', Body = NoBody\<rparr> fresh_world
     = Inr (\<lparr>header = [''Content-Length'' \<mapsto> ''1'', ''Content-Type'' \<mapsto> ''application/octet-stream''],
             status = Some 200, written = [''x''], sent = [], transport = []\<rparr>,
            \<lparr>mem = (\<lambda>_. 0)(0 := 1),
             logs = [''Error writing content of length 1: write tcp: i/o timeout'']\<rparr>)
   \<and> smallHandler counting_handlers (fresh_writer\<lparr>transport := [Fail 0 err_broken_pipe]\<rparr>)
       \<lparr>Method = ''GET'', Body = NoBody\<rparr> fresh_world
     = Inr (\<lparr>header = [''Content-Length'' \<mapsto> ''1'', ''Content-Type'' \<mapsto> ''application/octet-stream''],
             status = Some 200, written = [''x''], sent = [], transport = []\<rparr>,
            \<lparr>mem = (\<lambda>_. 0)(0 := 1), logs = []\<rparr>)
   \<and> mentions ''Error writing content of length 1: write tcp: i/o timeout'' ''1''
   \<and> mentions ''Error writing content of length 1: write tcp: i/o timeout'' ''write tcp: i/o timeout''"
  using write_failure_logged_once [of "\<lparr>Method = ''GET'', Body = NoBody\<rparr>" counting_handlers
        "fresh_writer\<lparr>transport := [Fail 0 err_timeout]\<rparr>" fresh_world err_timeout _ _ 1]
      write_failure_logged_once [of "\<lparr>Method = ''GET'', Body = NoBody\<rparr>" counting_handlers
        "fresh_writer\<lparr>transport := [Fail 0 err_broken_pipe]\<rparr>" fresh_world err_broken_pipe _ _ 1]
      small_timeout_run small_broken_pipe_run
  by (simp add: MethodGet_def fresh_world_def ignorableError_def err_timeout_def err_broken_pipe_def
      EPIPE_def ECONNRESET_def smallContentLength_def log_write_error_def fmt_error_def
      FormatInt_def decimal.simps digit_def)

lemma largeHandler_GET:
  "largeHandler h w \<lparr>Method = ''GET'', Body = b\<rparr> g =
     (case chunkedBodyWriter h (download_headers h largeContentLength w) largeContentLength g of
        Inl f \<Rightarrow> Inl f
      | Inr (err, w4, g') \<Rightarrow>
          if \<not> ignorableError err
          then Inr (w4, log_Printf (log_write_error largeContentLength err) g')
          else Inr (w4, g'))"
  by (simp add: largeHandler_def download_headers_def Let_def MethodGet_def MethodHead_def)

lemma large_timeout_run:
  "chunkedBodyWriter counting_handlers
      (download_headers counting_handlers largeContentLength (fresh_writer\<lparr>transport := [Fail 0 err_timeout]\<rparr>))
      largeContentLength fresh_world
   = Inr (Some err_timeout,
          \<lparr>header = [''Content-Length'' \<mapsto> ''8589934592'', ''Content-Type'' \<mapsto> ''application/octet-stream''],
           status = Some 200, written = [buffed], sent = [], transport = []\<rparr>,
          \<lparr>mem = (\<lambda>_. 0)(0 := 65536), logs = []\<rparr>)"
proof -
  let ?w = "WriteHeader StatusOK
      (download_headers counting_handlers largeContentLength (fresh_writer\<lparr>transport := [Fail 0 err_timeout]\<rparr>))"
  have W: "Write buffed ?w =
      (\<lparr>header = [''Content-Length'' \<mapsto> ''8589934592'', ''Content-Type'' \<mapsto> ''application/octet-stream''],
           status = Some 200, written = [buffed], sent = [], transport = []\<rparr>, 0, Some err_timeout)"
    by (simp add: Write_def WriteHeader_def StatusOK_def download_headers_def counting_handlers_def
        fresh_writer_def Header_Set_def largeContentLength_def FormatInt_def decimal.simps digit_def)
  have c: "chunkSize \<le> largeContentLength" by (simp add: chunkSize_def largeContentLength_def)
  have p: "BytesServed counting_handlers = Some 0" by (simp add: counting_handlers_def)
  show ?thesis
    unfolding chunkedBodyWriter_def loop_full [OF c p W]
    by (simp add: fresh_world_def chunkSize_def)
qed

text \<open>
  Claim C8 as stated fails: the one entry a timed-out write leaves names the size and
  the error, and neither \<^verbatim>\<open>small\<close> nor \<^verbatim>\<open>large\<close>.
\<close>

theorem log_entry_without_endpoint_name:
  "smallHandler counting_handlers (fresh_writer\<lparr>transport := [Fail 0 err_timeout]\<rparr>)
       \<lparr>Method = ''GET'', Body = NoBody\<rparr> fresh_world
     = Inr (\<lparr>header = [''Content-Length'' \<mapsto> ''1'', ''Content-Type'' \<mapsto> ''application/octet-stream''],
             status = Some 200, written = [''x''], sent = [], transport = []\<rparr>,
            \<lparr>mem = (\<lambda>_. 0)(0 := 1),
             logs = [''Error writing content of length 1: write tcp: i/o timeout'']\<rparr>)
   \<and> \<not> mentions ''Error writing content of length 1: write tcp: i/o timeout'' ''small''
   \<and> largeHandler counting_handlers (fresh_writer\<lparr>transport := [Fail 0 err_timeout]\<rparr>)
       \<lparr>Method = ''GET'', Body = NoBody\<rparr> fresh_world
     = Inr (\<lparr>header = [''Content-Length'' \<mapsto> ''8589934592'', ''Content-Type'' \<mapsto> ''application/octet-stream''],
             status = Some 200, written = [buffed], sent = [], transport = []\<rparr>,
            \<lparr>mem = (\<lambda>_. 0)(0 := 65536),
             logs = [''Error writing content of length 8589934592: write tcp: i/o timeout'']\<rparr>)
   \<and> \<not> mentions ''Error writing content of length 8589934592: write tcp: i/o timeout'' ''large''"
proof -
  have "smallHandler counting_handlers (fresh_writer\<lparr>transport := [Fail 0 err_timeout]\<rparr>)
       \<lparr>Method = ''GET'', Body = NoBody\<rparr> fresh_world
     = Inr (\<lparr>header = [''Content-Length'' \<mapsto> ''1'', ''Content-Type'' \<mapsto> ''application/octet-stream''],
             status = Some 200, written = [''x''], sent = [], transport = []\<rparr>,
            \<lparr>mem = (\<lambda>_. 0)(0 := 1),
             logs = [''Error writing content of length 1: write tcp: i/o timeout'']\<rparr>)"
    by (simp add: smallHandler_def counting_handlers_def fresh_writer_def fresh_world_def
      MethodGet_def MethodHead_def Header_Set_def chunkedBodyWriter_def chunkedBodyWriter_loop.simps
      smallContentLength_def chunkSize_def atomic_AddUint64_def Write_def
      WriteHeader_def StatusOK_def ignorableError_def err_timeout_def EPIPE_def ECONNRESET_def
      log_Printf_def log_write_error_def fmt_error_def FormatInt_def decimal.simps digit_def
      take_buffed [of 1, simplified])
  moreover have "\<not> mentions ''Error writing content of length 1: write tcp: i/o timeout'' ''small''"
    by simp
  moreover have "largeHandler counting_handlers (fresh_writer\<lparr>transport := [Fail 0 err_timeout]\<rparr>)
       \<lparr>Method = ''GET'', Body = NoBody\<rparr> fresh_world
     = Inr (\<lparr>header = [''Content-Length'' \<mapsto> ''8589934592'', ''Content-Type'' \<mapsto> ''application/octet-stream''],
             status = Some 200, written = [buffed], sent = [], transport = []\<rparr>,
            \<lparr>mem = (\<lambda>_. 0)(0 := 65536),
             logs = [''Error writing content of length 8589934592: write tcp: i/o timeout'']\<rparr>)"
    unfolding largeHandler_GET large_timeout_run
    by (simp add: ignorableError_def err_timeout_def
        EPIPE_def ECONNRESET_def log_Printf_def log_write_error_def fmt_error_def
        largeContentLength_def FormatInt_def decimal.simps digit_def)
  moreover have "\<not> mentions ''Error writing content of length 8589934592: write tcp: i/o timeout'' ''large''"
    by simp
  ultimately show ?thesis by blast
qed

subsection \<open>HEAD requests\<close>

text \<open>
  Claim C2 fails on the small endpoint. \<^verbatim>\<open>smallHandler\<close> lacks the return for
  non-GET methods that \<^verbatim>\<open>largeHandler\<close> has, so a HEAD request runs the driver: the
  served counter advances by one and one byte is handed to \<^verbatim>\<open>Write\<close>. When the
  transport answers that write with an error that is not ignorable, an error is logged
  as well; when it answers with success (\<^verbatim>\<open>net/http\<close> swallows the writes of a HEAD
  response and reports them as done), nothing is logged. The counter has advanced in
  both cases.
\<close>

theorem smallHandler_HEAD_counts:
  "smallHandler counting_handlers (fresh_writer\<lparr>transport := [Fail 0 ErrBodyNotAllowed]\<rparr>)
       \<lparr>Method = ''HEAD'', Body = NoBody\<rparr> fresh_world
     = Inr (\<lparr>header = [''Content-Length'' \<mapsto> ''1'', ''Content-Type'' \<mapsto> ''application/octet-stream''],
             status = Some 200, written = [''x''], sent = [], transport = []\<rparr>,
            \<lparr>mem = (\<lambda>_. 0)(0 := 1),
             logs = [''Error writing content of length 1: http: request method or response status code does not allow body'']\<rparr>)
   \<and> smallHandler counting_handlers fresh_writer \<lparr>Method = ''HEAD'', Body = NoBody\<rparr> fresh_world
     = Inr (\<lparr>header = [''Content-Length'' \<mapsto> ''1'', ''Content-Type'' \<mapsto> ''application/octet-stream''],
             status = Some 200, written = [''x''], sent = ''x'', transport = []\<rparr>,
            \<lparr>mem = (\<lambda>_. 0)(0 := 1), logs = []\<rparr>)"
  by (simp add: smallHandler_def counting_handlers_def fresh_writer_def fresh_world_def
      ErrBodyNotAllowed_def MethodGet_def MethodHead_def Header_Set_def chunkedBodyWriter_def
      chunkedBodyWriter_loop.simps smallContentLength_def chunkSize_def atomic_AddUint64_def
      Write_def WriteHeader_def StatusOK_def ignorableError_def EPIPE_def ECONNRESET_def
      log_Printf_def log_write_error_def fmt_error_def FormatInt_def decimal.simps digit_def
      take_buffed [of 1, simplified])

text \<open>
  The part of the claim about the large endpoint holds: headers only, no write, no
  change of the memory, and status 200 when the handler returns.
\<close>

lemma largeHandler_HEAD:
  "largeHandler h w \<lparr>Method = MethodHead, Body = b\<rparr> g
     = Inr (download_headers h largeContentLength w, g)
   \<and> written (download_headers h largeContentLength w) = written w
   \<and> sent (download_headers h largeContentLength w) = sent w
   \<and> response_status (download_headers h largeContentLength fresh_writer) = 200
   \<and> header (download_headers h largeContentLength w) ''Content-Length'' = Some ''8589934592''"
  by (simp add: largeHandler_def download_headers_def Let_def MethodGet_def MethodHead_def
      Header_Set_def setCors_def response_status_def fresh_writer_def StatusOK_def
      largeContentLength_def FormatInt_def decimal.simps digit_def)

subsection \<open>Nil counters\<close>

lemma chunkedBodyWriter_fault_iff:
  assumes "0 < N"
  shows "chunkedBodyWriter h w N g = Inl NilPointerDereference \<longleftrightarrow> BytesServed h = None"
proof (cases "BytesServed h")
  case None
  with assms show ?thesis by (simp add: chunkedBodyWriter_def loop_nil)
next
  case (Some p)
  from loop_counts [OF Some, of N "WriteHeader StatusOK w" g] Some
  show ?thesis by (auto simp: chunkedBodyWriter_def)
qed

lemma smallHandler_fault_iff:
  "smallHandler h w \<lparr>Method = MethodGet, Body = b\<rparr> g = Inl NilPointerDereference
     \<longleftrightarrow> BytesServed h = None"
  using chunkedBodyWriter_fault_iff [of smallContentLength h "download_headers h smallContentLength w" g]
  by (auto simp: smallHandler_def download_headers_def Let_def smallContentLength_def
      split: sum.splits prod.splits if_splits)

lemma largeHandler_fault_iff:
  "largeHandler h w \<lparr>Method = MethodGet, Body = b\<rparr> g = Inl NilPointerDereference
     \<longleftrightarrow> BytesServed h = None"
  using chunkedBodyWriter_fault_iff [of largeContentLength h "download_headers h largeContentLength w" g]
  by (auto simp: largeHandler_def download_headers_def Let_def largeContentLength_def
      split: sum.splits prod.splits if_splits)

lemma slurpHandler_fault_iff:
  "slurpHandler h w \<lparr>Method = meth, Body = Reader rd\<rparr> g = Some (Inl NilPointerDereference)
     \<longleftrightarrow> BytesReceived h = None"
proof (cases "BytesReceived h")
  case None
  then show ?thesis
    by (simp add: slurpHandler_def io_Copy_def ReadFrom_def ReadFrom_loop_nil Let_def)
next
  case (Some p)
  have "ReadFrom_loop \<lparr>byteCounter = BytesReceived h\<rparr> rd 0 0 g \<noteq> Some (Inl NilPointerDereference)"
    using ReadFrom_loop_no_fault [of "\<lparr>byteCounter = BytesReceived h\<rparr>" rd 0 0 g "Inl NilPointerDereference"] Some
    by auto
  with Some show ?thesis
    by (auto simp: slurpHandler_def io_Copy_def ReadFrom_def Let_def
        split: option.splits sum.splits prod.splits)
qed

lemma slurpHandler_NoBody:
  "slurpHandler h w \<lparr>Method = meth, Body = NoBody\<rparr> g \<noteq> Some (Inl NilPointerDereference)"
  by (simp add: slurpHandler_def io_Copy_def NoBody_def Let_def)

text \<open>
  Claim C10. \<^verbatim>\<open>BulkHandlers\<close> binds the three paths to handlers whose two counter
  pointers are nil, \<^verbatim>\<open>CountingBulkHandlers\<close> to handlers with the pointers it is given.
  No counter update checks for nil: for any handlers, a GET of the small or the large
  endpoint ends in a nil dereference exactly when \<open>BytesServed\<close> is nil, and an upload
  whose body is read (so every upload that carries bytes) ends in one exactly when
  \<open>BytesReceived\<close> is nil. An upload without a body is never read and touches no
  counter.
\<close>

theorem counters_must_not_be_nil:
  "BulkHandlers prefix cors (prefix @ ''/small'')
       = Some (returns (smallHandler \<lparr>EnableCORS = cors, BytesServed = None, BytesReceived = None\<rparr>))
   \<and> BulkHandlers prefix cors (prefix @ ''/large'')
       = Some (returns (largeHandler \<lparr>EnableCORS = cors, BytesServed = None, BytesReceived = None\<rparr>))
   \<and> BulkHandlers prefix cors (prefix @ ''/slurp'')
       = Some (slurpHandler \<lparr>EnableCORS = cors, BytesServed = None, BytesReceived = None\<rparr>)
   \<and> CountingBulkHandlers prefix cors ps pr (prefix @ ''/small'')
       = Some (returns (smallHandler \<lparr>EnableCORS = cors, BytesServed = ps, BytesReceived = pr\<rparr>))
   \<and> CountingBulkHandlers prefix cors ps pr (prefix @ ''/large'')
       = Some (returns (largeHandler \<lparr>EnableCORS = cors, BytesServed = ps, BytesReceived = pr\<rparr>))
   \<and> CountingBulkHandlers prefix cors ps pr (prefix @ ''/slurp'')
       = Some (slurpHandler \<lparr>EnableCORS = cors, BytesServed = ps, BytesReceived = pr\<rparr>)
   \<and> (returns (smallHandler h) w \<lparr>Method = MethodGet, Body = b\<rparr> g = Some (Inl NilPointerDereference)
        \<longleftrightarrow> BytesServed h = None)
   \<and> (returns (largeHandler h) w \<lparr>Method = MethodGet, Body = b\<rparr> g = Some (Inl NilPointerDereference)
        \<longleftrightarrow> BytesServed h = None)
   \<and> (slurpHandler h w \<lparr>Method = meth, Body = Reader rd\<rparr> g = Some (Inl NilPointerDereference)
        \<longleftrightarrow> BytesReceived h = None)
   \<and> slurpHandler h w \<lparr>Method = meth, Body = NoBody\<rparr> g \<noteq> Some (Inl NilPointerDereference)"
  by (simp add: BulkHandlers_def CountingBulkHandlers_def returns_def Let_def
      smallHandler_fault_iff largeHandler_fault_iff slurpHandler_fault_iff slurpHandler_NoBody)

theorem counters_must_not_be_nil_witness:
  "(case BulkHandlers ''/api'' False ''/api/small'' of
      None \<Rightarrow> False
    | Some f \<Rightarrow> f fresh_writer \<lparr>Method = ''GET'', Body = NoBody\<rparr> fresh_world
                  = Some (Inl NilPointerDereference))
   \<and> (case BulkHandlers ''/api'' False ''/api/large'' of
      None \<Rightarrow> False
    | Some f \<Rightarrow> f fresh_writer \<lparr>Method = ''GET'', Body = NoBody\<rparr> fresh_world
                  = Some (Inl NilPointerDereference))
   \<and> (case BulkHandlers ''/api'' False ''/api/slurp'' of
      None \<Rightarrow> False
    | Some f \<Rightarrow> f fresh_writer \<lparr>Method = ''POST'', Body = Reader three_reads\<rparr> fresh_world
                  = Some (Inl NilPointerDereference))
   \<and> (case CountingBulkHandlers ''/api'' False (Some 0) (Some 1) ''/api/small'' of
      None \<Rightarrow> False
    | Some f \<Rightarrow> f fresh_writer \<lparr>Method = ''GET'', Body = NoBody\<rparr> fresh_world
                  \<noteq> Some (Inl NilPointerDereference))
   \<and> (case CountingBulkHandlers ''/api'' False (Some 0) (Some 1) ''/api/slurp'' of
      None \<Rightarrow> False
    | Some f \<Rightarrow> f fresh_writer \<lparr>Method = ''POST'', Body = Reader three_reads\<rparr> fresh_world
                  \<noteq> Some (Inl NilPointerDereference))"
  using counters_must_not_be_nil [of "''/api''" False "Some 0" "Some 1"
      "\<lparr>EnableCORS = False, BytesServed = None, BytesReceived = None\<rparr>" fresh_writer NoBody fresh_world
      "''POST''" three_reads]
    counters_must_not_be_nil [of "''/api''" False "Some 0" "Some 1"
      "\<lparr>EnableCORS = False, BytesServed = Some 0, BytesReceived = Some 1\<rparr>" fresh_writer NoBody fresh_world
      "''POST''" three_reads]
  by (simp add: MethodGet_def)

subsection \<open>The discovery document is built once\<close>

lemma alone_MethodCheck:
  "alone enc (\<lparr>req = r, at = AtMethodCheck, rw = w\<rparr>, m, busy, g) =
     (if Method r \<noteq> MethodGet
      then (\<lparr>req = r, at = Returned, rw = WriteHeader StatusMethodNotAllowed w\<rparr>, m, busy, g)
      else (\<lparr>req = r, at = AtOnce, rw = w\<rparr>, m, busy, g))"
  by (simp add: alone_def ConfigHandler_step_def)

lemma alone_Returned: "alone enc (\<lparr>req = r, at = Returned, rw = w\<rparr>, m, busy, g)
    = (\<lparr>req = r, at = Returned, rw = w\<rparr>, m, busy, g)"
  by (simp add: alone_def ConfigHandler_step_def)

lemma alone_Once:
  "alone enc (\<lparr>req = r, at = AtOnce, rw = w\<rparr>, m, False, g) =
     (if once m then (\<lparr>req = r, at = AtHeaders, rw = w\<rparr>, m, False, g)
      else (\<lparr>req = r, at = InBuild, rw = w\<rparr>, m, True, g))"
  by (simp add: alone_def ConfigHandler_step_def)

lemma alone_InBuild:
  "alone enc (\<lparr>req = r, at = InBuild, rw = w\<rparr>, m, busy, g) =
     (\<lparr>req = r, at = AtHeaders, rw = w\<rparr>, once_Do (generateConfig enc) m, False, g)"
  by (simp add: alone_def ConfigHandler_step_def)

lemma alone_respond:
  "(case alone enc (alone enc (\<lparr>req = r, at = AtHeaders, rw = w\<rparr>, m, False, g)) of
      (c, m', busy, g') \<Rightarrow> (at c, m', rw c, busy, g'))
   = (let w1 = Header_Set ''Content-Type'' ''application/json'' w;
          w2 = (if EnableH3AltSvc m
                then Header_Set ''Alt-Svc''
                       (''h3='' @ [CHR 0x22] @ '':'' @ FormatInt (PublicPort m) @ [CHR 0x22]) w1
                else w1);
          w3 = (if Server.EnableCORS m then setCors w2 else w2)
      in case Write (generatedConfig m) w3 of
           (w4, _, Some err) \<Rightarrow>
             (Returned, m, w4, False, log_Printf (''could not write response: '' @ Error err) g)
         | (w4, _, None) \<Rightarrow> (Returned, m, w4, False, g))"
  by (simp add: alone_def ConfigHandler_step_def Let_def split: prod.split option.split)

lemma ConfigHandler_steps:
  "(case alone enc (alone enc (alone enc (alone enc (alone enc
          (\<lparr>req = r, at = AtMethodCheck, rw = w\<rparr>, m, False, g))))) of
      (c, m', busy, g') \<Rightarrow> (at c, m', rw c, busy, g'))
   = (case ConfigHandler enc m w r g of (m', w', g') \<Rightarrow> (Returned, m', w', False, g'))"
proof (cases "Method r = MethodGet")
  case False
  then show ?thesis
    by (simp add: alone_MethodCheck alone_Returned ConfigHandler_def)
next
  case get: True
  show ?thesis
  proof (cases "once m")
    case True
    have "alone enc (alone enc (\<lparr>req = r, at = AtMethodCheck, rw = w\<rparr>, m, False, g))
        = (\<lparr>req = r, at = AtHeaders, rw = w\<rparr>, m, False, g)"
      using get True by (simp add: alone_MethodCheck alone_Once)
    moreover obtain c m' busy g' where
      x: "alone enc (alone enc (\<lparr>req = r, at = AtHeaders, rw = w\<rparr>, m, False, g)) = (c, m', busy, g')"
      by (metis prod_cases4)
    moreover from x have "at c = Returned"
      by (auto simp: alone_def ConfigHandler_step_def Let_def split: prod.splits option.splits)
    then have "alone enc (c, m', busy, g') = (c, m', busy, g')"
      by (simp add: alone_def ConfigHandler_step_def)
    ultimately show ?thesis
      using alone_respond [of enc r w m g] get True
      by (simp add: ConfigHandler_def once_Do_def Let_def split: prod.split option.split)
  next
    case False
    have "alone enc (alone enc (alone enc (\<lparr>req = r, at = AtMethodCheck, rw = w\<rparr>, m, False, g)))
        = (\<lparr>req = r, at = AtHeaders, rw = w\<rparr>, once_Do (generateConfig enc) m, False, g)"
      using get False by (simp add: alone_MethodCheck alone_Once alone_InBuild)
    then show ?thesis
      using alone_respond [of enc r w "once_Do (generateConfig enc) m" g] get
      by (simp add: ConfigHandler_def Let_def split: prod.split option.split)
  qed
qed

lemma apply_change_keeps [simp]:
  "once (apply_change ch m) = once m" "generatedConfig (apply_change ch m) = generatedConfig m"
  by (cases ch; simp)+

lemma step_facts:
  assumes st: "ConfigHandler_step enc c m busy g = (c', m', busy', g')"
  shows "at c = InBuild \<Longrightarrow> at c' = AtHeaders \<and> once m' \<and> \<not> busy'
            \<and> (once m \<longrightarrow> m' = m)"
    and "at c \<noteq> InBuild \<Longrightarrow> m' = m"
    and "at c \<noteq> InBuild \<Longrightarrow> at c' = InBuild \<Longrightarrow> \<not> busy \<and> \<not> once m \<and> busy'"
    and "at c \<noteq> InBuild \<Longrightarrow> at c' \<noteq> InBuild \<Longrightarrow> busy' = busy"
    and "at c \<noteq> InBuild \<Longrightarrow> at c' = AtHeaders \<or> at c' = AtWrite \<Longrightarrow>
           once m \<or> at c = AtHeaders \<or> at c = AtWrite"
    and "at c \<noteq> InBuild \<Longrightarrow> served c' \<Longrightarrow> \<not> served c \<Longrightarrow>
           at c = AtWrite \<and> written (rw c') \<noteq> [] \<and> last (written (rw c')) = generatedConfig m"
    and "served c \<Longrightarrow> c' = c"
  using st
  by (auto simp: ConfigHandler_step_def served_def once_Do_def Let_def
      dest: Write_written split: pc.splits if_splits prod.splits option.splits)

lemma exec_Inv:
  assumes "Inv s"
  shows "Inv (exec enc ev s)"
proof (cases ev)
  case (Arrive r w)
  with assms show ?thesis
    by (auto simp: exec_def Inv_def ok_def served_def nth_append)
next
  case (Configure ch)
  with assms show ?thesis
    by (auto simp: exec_def Inv_def ok_def)
next
  case (Step k)
  show ?thesis
  proof (cases "k < length (calls s)")
    case False
    with Step assms show ?thesis by (simp add: exec_def)
  next
    case klt: True
    let ?c = "calls s ! k"
    let ?m = "server s"
    obtain c' m' busy' g' where
      st: "ConfigHandler_step enc ?c ?m (building s) (proc s) = (c', m', busy', g')"
      by (metis prod_cases4)
    let ?s' = "s\<lparr>server := m', building := busy', proc := g', calls := (calls s)[k := c'],
        builds := builds s + (if at ?c = InBuild \<and> \<not> once ?m then 1 else 0)\<rparr>"
    have ex: "exec enc ev s = ?s'"
      using Step klt st by (simp add: exec_def)
    from assms klt have okc: "ok s ?c" by (simp add: Inv_def)
    from assms have oks: "\<And>i. i < length (calls s) \<Longrightarrow> ok s (calls s ! i)" by (simp add: Inv_def)
    from assms have uniq: "\<And>i j. i < length (calls s) \<Longrightarrow> j < length (calls s) \<Longrightarrow>
        at (calls s ! i) = InBuild \<Longrightarrow> at (calls s ! j) = InBuild \<Longrightarrow> i = j"
      by (simp add: Inv_def)
    from assms have b: "builds s = (if once ?m then 1 else 0)" by (simp add: Inv_def)
    note f = step_facts [OF st]
    show ?thesis
    proof (cases "at ?c = InBuild")
      case build: True
      from okc build have pre: "building s" "\<not> once ?m" by (simp_all add: ok_def)
      from f(1) [OF build] have post: "at c' = AtHeaders" "once m'" "\<not> busy'" by simp_all
      have others: "at (calls s ! i) \<noteq> InBuild \<and> at (calls s ! i) \<noteq> AtHeaders
            \<and> at (calls s ! i) \<noteq> AtWrite \<and> \<not> served (calls s ! i)"
        if "i < length (calls s)" "i \<noteq> k" for i
        using uniq [OF that(1) klt] build that(2) oks [OF that(1)] pre by (auto simp: ok_def)
      have "ok ?s' ((calls s)[k := c'] ! i)" if "i < length (calls s)" for i
      proof (cases "i = k")
        case True
        with that post show ?thesis by (simp add: ok_def served_def)
      next
        case False
        with others [OF that] that show ?thesis by (simp add: ok_def)
      qed
      moreover have "i = j" if "i < length (calls s)" "j < length (calls s)"
          "at ((calls s)[k := c'] ! i) = InBuild" "at ((calls s)[k := c'] ! j) = InBuild" for i j
        using that others [of i] others [of j] post klt
        by (auto simp: nth_list_update split: if_splits)
      ultimately show ?thesis
        using b pre post build by (simp add: ex Inv_def)
    next
      case nobuild: False
      from f(2) [OF nobuild] have m': "m' = ?m" .
      have okk: "ok ?s' c'"
      proof -
        have "at c' = InBuild \<longrightarrow> busy' \<and> \<not> once ?m"
          using f(3) [OF nobuild] by blast
        moreover have "at c' = AtHeaders \<or> at c' = AtWrite \<longrightarrow> once ?m"
          using f(5) [OF nobuild] okc by (auto simp: ok_def)
        moreover have "served c' \<longrightarrow> once ?m \<and> written (rw c') \<noteq> []
              \<and> last (written (rw c')) = generatedConfig ?m"
        proof
          assume sv: "served c'"
          show "once ?m \<and> written (rw c') \<noteq> [] \<and> last (written (rw c')) = generatedConfig ?m"
          proof (cases "served ?c")
            case True
            with f(7) okc show ?thesis by (simp add: ok_def)
          next
            case False
            from f(6) [OF nobuild sv False] okc show ?thesis by (simp add: ok_def)
          qed
        qed
        ultimately show ?thesis by (simp add: ok_def m')
      qed
      have oko: "ok ?s' (calls s ! i)" if "i < length (calls s)" "i \<noteq> k" for i
      proof -
        have "building s" if "at (calls s ! i) = InBuild"
          using oks [OF \<open>i < length (calls s)\<close>] that by (simp add: ok_def)
        moreover have "busy' = building s" if "building s"
          using f(3,4) [OF nobuild] that by (cases "at c' = InBuild") auto
        ultimately show ?thesis
          using oks [OF that(1)] by (auto simp: ok_def m')
      qed
      have "ok ?s' ((calls s)[k := c'] ! i)" if "i < length (calls s)" for i
        using okk oko [OF that] that by (cases "i = k") simp_all
      moreover have "i = j" if ij: "i < length (calls s)" "j < length (calls s)"
          "at ((calls s)[k := c'] ! i) = InBuild" "at ((calls s)[k := c'] ! j) = InBuild" for i j
      proof (cases "at c' = InBuild")
        case False
        with ij klt have "at (calls s ! i) = InBuild" "at (calls s ! j) = InBuild"
          by (auto simp: nth_list_update split: if_splits)
        from uniq [OF ij(1,2) this] show ?thesis .
      next
        case True
        from f(3) [OF nobuild True] have "\<not> building s" by simp
        then have none: "at (calls s ! l) \<noteq> InBuild" if "l < length (calls s)" for l
          using oks [OF that] by (auto simp: ok_def)
        from ij klt none [of i] none [of j] show ?thesis
          by (auto simp: nth_list_update split: if_splits)
      qed
      ultimately show ?thesis
        using b nobuild by (simp add: ex Inv_def m')
    qed
  qed
qed

lemma run_Inv: "Inv s \<Longrightarrow> Inv (run enc evs s)"
  by (induction evs arbitrary: s) (simp_all add: exec_Inv)

lemma Inv_startup: "Inv (startup m g)"
  by (simp add: Inv_def startup_def)

lemma exec_settled:
  assumes "once (server s)"
  shows "once (server (exec enc ev s))
       \<and> generatedConfig (server (exec enc ev s)) = generatedConfig (server s)
       \<and> builds (exec enc ev s) = builds s"
proof (cases ev)
  case (Arrive r w)
  with assms show ?thesis by (simp add: exec_def)
next
  case (Configure ch)
  with assms show ?thesis by (simp add: exec_def)
next
  case (Step i)
  show ?thesis
  proof (cases "i < length (calls s)")
    case False
    with Step assms show ?thesis by (simp add: exec_def)
  next
    case True
    obtain c' m' busy' g' where
      st: "ConfigHandler_step enc (calls s ! i) (server s) (building s) (proc s) = (c', m', busy', g')"
      by (metis prod_cases4)
    have "m' = server s"
      using step_facts(1,2) [OF st] assms by (cases "at (calls s ! i) = InBuild") auto
    with Step True st assms show ?thesis by (simp add: exec_def)
  qed
qed

lemma run_settled:
  "once (server s) \<Longrightarrow>
   once (server (run enc evs s))
   \<and> generatedConfig (server (run enc evs s)) = generatedConfig (server s)
   \<and> builds (run enc evs s) = builds s"
proof (induction evs arbitrary: s)
  case Nil
  then show ?case by simp
next
  case (Cons ev evs)
  from exec_settled [OF Cons.prems, of enc ev] Cons.IH [of "exec enc ev s"]
  show ?case by simp
qed

text \<open>
  Claim C5. From the start of a server, under every schedule of arrivals, handler steps
  and configuration changes (so under every interleaving of concurrent requests, also
  of requests that reach \<^verbatim>\<open>once.Do\<close> while the first build is still running),
  \<^verbatim>\<open>generateConfig\<close> has run at most once; every GET that has returned was handed the
  cached document, the same bytes for all of them; and once the document is built, no
  later schedule, whatever it changes in the configuration, builds again or changes
  the cached bytes, and every GET that returns later is handed those same bytes.
\<close>

theorem discovery_document_built_once:
  "builds (run enc evs (startup m g)) \<le> 1
   \<and> (\<forall>c \<in> set (calls (run enc evs (startup m g))).
        served c \<longrightarrow> written (rw c) \<noteq> []
          \<and> last (written (rw c)) = generatedConfig (server (run enc evs (startup m g))))
   \<and> (once (server (run enc evs (startup m g))) \<longrightarrow>
        builds (run enc evs' (run enc evs (startup m g))) = builds (run enc evs (startup m g))
        \<and> generatedConfig (server (run enc evs' (run enc evs (startup m g))))
            = generatedConfig (server (run enc evs (startup m g)))
        \<and> (\<forall>c \<in> set (calls (run enc evs' (run enc evs (startup m g)))).
              served c \<longrightarrow> last (written (rw c))
                = generatedConfig (server (run enc evs (startup m g)))))"
proof -
  let ?s = "run enc evs (startup m g)"
  let ?s' = "run enc evs' ?s"
  have served_doc: "\<forall>c \<in> set (calls s). served c \<longrightarrow> written (rw c) \<noteq> []
          \<and> last (written (rw c)) = generatedConfig (server s)" if "Inv s" for s
    using that by (auto simp: Inv_def ok_def in_set_conv_nth)
  have I: "Inv ?s" by (rule run_Inv [OF Inv_startup])
  then have I': "Inv ?s'" by (rule run_Inv)
  from I have "builds ?s \<le> 1" by (simp add: Inv_def)
  moreover note served_doc [OF I]
  moreover have "builds ?s' = builds ?s
        \<and> generatedConfig (server ?s') = generatedConfig (server ?s)
        \<and> (\<forall>c \<in> set (calls ?s'). served c \<longrightarrow> last (written (rw c)) = generatedConfig (server ?s))"
    if "once (server ?s)"
    using run_settled [OF that, of enc evs'] served_doc [OF I'] by simp
  ultimately show ?thesis by blast
qed

text \<open>
  Two concurrent requests: the second reaches \<^verbatim>\<open>once.Do\<close> while the first is
  building and waits; the scheme is changed after the build; both are handed the
  document built from the first configuration, and a later change and request leave
  it as it is.
\<close>

lemma run_two_requests:
  "run quoted two_requests (startup example_server fresh_world) =
     \<lparr>server = example_server
        \<lparr>Scheme := ''http'', generatedConfig := MarshalIndent quoted (config_resp example_server),
         once := True\<rparr>,
      building = False, proc = fresh_world,
      calls =
        [\<lparr>req = get_config, at = Returned,
          rw = \<lparr>header = [''Content-Type'' \<mapsto> ''application/json''], status = Some 200,
                written = [MarshalIndent quoted (config_resp example_server)],
                sent = MarshalIndent quoted (config_resp example_server), transport = []\<rparr>\<rparr>,
         \<lparr>req = get_config, at = Returned,
          rw = \<lparr>header = [''Content-Type'' \<mapsto> ''application/json''], status = Some 200,
                written = [MarshalIndent quoted (config_resp example_server)],
                sent = MarshalIndent quoted (config_resp example_server), transport = []\<rparr>\<rparr>],
      builds = 1\<rparr>"
  by (simp add: two_requests_def startup_def exec_def ConfigHandler_step_def get_config_def
      MethodGet_def once_Do_def generateConfig_def example_server_def fresh_writer_def
      Header_Set_def Write_def WriteHeader_def StatusOK_def Let_def)

theorem discovery_document_built_once_witness:
  "builds (run quoted two_requests (startup example_server fresh_world)) = 1
   \<and> map (\<lambda>c. written (rw c)) (calls (run quoted two_requests (startup example_server fresh_world)))
       = [[MarshalIndent quoted (config_resp example_server)],
          [MarshalIndent quoted (config_resp example_server)]]
   \<and> Scheme (server (run quoted two_requests (startup example_server fresh_world))) = ''http''
   \<and> generatedConfig (server (run quoted [Configure (SetContextPath ''/v2''), Arrive get_config fresh_writer, Step 2]
        (run quoted two_requests (startup example_server fresh_world))))
       = MarshalIndent quoted (config_resp example_server)"
  using discovery_document_built_once [of quoted two_requests example_server fresh_world
      "[Configure (SetContextPath ''/v2''), Arrive get_config fresh_writer, Step 2]"]
  by (simp add: run_two_requests)

end
